theory Spec2Isabelle
  imports Main
begin

section \<open>Values of the runtime\<close>

text \<open>
  The errors the code can throw: \<open>Error\<close> with its message (the factory's own
  \<open>throw Error(...)\<close>), and the two built-in errors of the language that the modelled
  statements can raise (\<open>TypeError\<close> on reading a property of \<open>undefined\<close> and from the
  queue's constructor, \<open>RangeError\<close> from \<open>new Array(n)\<close>).
\<close>

datatype js_error = Error string | TypeError string | RangeError string

text \<open>
  The settled state of the promise an \<open>async\<close> method returns: resolved with a value,
  rejected with an error, or never settled (the method is still suspended at an
  \<open>await\<close>).
\<close>

datatype 'a promise = Resolved 'a | Rejected js_error | Pending

text \<open>
  A property key computed by a numeric expression. The remainder operator \<open>%\<close> takes the
  sign of the dividend and yields \<open>NaN\<close> for a zero divisor. Numbers are modelled as
  integers; fractional task ids are outside the model.
\<close>

datatype jskey = Key int | KeyNaN

definition js_rem :: "int \<Rightarrow> int \<Rightarrow> jskey" where
  "js_rem a b = (if b = 0 then KeyNaN else Key (sgn a * (\<bar>a\<bar> mod \<bar>b\<bar>)))"

text \<open>
  An array object: its \<open>length\<close> and its own properties. The properties whose key is an
  integer in \<open>0 ..< length\<close> are the elements (slots); a slot without a property is a hole
  and reads as \<open>undefined\<close>. Any other key (a negative number, \<open>NaN\<close>) is an ordinary
  property that does not count towards \<open>length\<close> and is not visited by iteration.
\<close>

record 'a jsarray =
  alength :: nat
  aprops :: "jskey \<rightharpoonup> 'a"

text \<open>\<open>new Array(n)\<close>: \<open>n\<close> holes, or a \<open>RangeError\<close> when \<open>n\<close> is not a valid length.\<close>

definition new_Array :: "int \<Rightarrow> js_error + 'a jsarray" where
  "new_Array n =
     (if 0 \<le> n \<and> n < 2 ^ 32 then Inr \<lparr>alength = nat n, aprops = Map.empty\<rparr>
      else Inl (RangeError ''Invalid array length''))"

text \<open>\<open>arr[k]\<close>: the property, \<open>None\<close> standing for \<open>undefined\<close>.\<close>

definition aget :: "'a jsarray \<Rightarrow> jskey \<Rightarrow> 'a option" where
  "aget arr k = aprops arr k"

text \<open>\<open>arr[k] = v\<close>: an array index at or beyond \<open>length\<close> extends the array.\<close>

definition aset :: "'a jsarray \<Rightarrow> jskey \<Rightarrow> 'a \<Rightarrow> 'a jsarray" where
  "aset arr k v =
     (case k of
        Key i \<Rightarrow>
          if 0 \<le> i \<and> i < 2 ^ 32 - 1
          then \<lparr>alength = max (alength arr) (nat i + 1), aprops = (aprops arr)(k \<mapsto> v)\<rparr>
          else arr\<lparr>aprops := (aprops arr)(k \<mapsto> v)\<rparr>
      | KeyNaN \<Rightarrow> arr\<lparr>aprops := (aprops arr)(k \<mapsto> v)\<rparr>)"

text \<open>
  What \<open>for (const x of arr)\<close> visits: the slots \<open>0 ..< length\<close> in order, a hole
  giving \<open>undefined\<close>.
\<close>

definition elements :: "'a jsarray \<Rightarrow> 'a option list" where
  "elements arr = map (\<lambda>i. aprops arr (Key (int i))) [0 ..< alength arr]"

section \<open>The world outside the context\<close>

text \<open>
  The objects the context creates and calls live outside it: the task queue, the
  dedicated workers and the handles made from them. Each has an identity (a number
  drawn from \<open>fresh\<close>). The world records which queues have listeners attached, which
  workers were terminated, and every external call in the order it was made.
\<close>

datatype event =
    ConsoleLog int
  | NewPQueue nat int
  | LogQueueStats nat string
  | GetDedicatedCryptoWorker nat
  | NewComlink nat nat
  | OnIdle nat
  | RemoveAllListeners nat
  | Terminate nat

record world =
  fresh :: nat
  listening :: "nat set"
  terminated :: "nat set"
  events :: "event list"

definition emit :: "event \<Rightarrow> world \<Rightarrow> world" where
  "emit e w = w\<lparr>events := events w @ [e]\<rparr>"

datatype PQueue = PQueue (qid: nat)

text \<open>
  \<open>new PQueue({ concurrency: c })\<close> of the p-queue package: its constructor throws a
  \<open>TypeError\<close> unless \<open>c\<close> is a number from 1 and up.
\<close>

definition new_PQueue :: "int \<Rightarrow> world \<Rightarrow> (js_error + PQueue) \<times> world" where
  "new_PQueue c w =
     (if 1 \<le> c
      then (Inr (PQueue (fresh w)), emit (NewPQueue (fresh w) c) (w\<lparr>fresh := Suc (fresh w)\<rparr>))
      else (Inl (TypeError ''Expected concurrency to be a number from 1 and up''), w))"

text \<open>
  Modelled from the spec: \<open>logQueueStats\<close> of \<open>utils/machineLearning\<close> is not among the
  sources. It is the observability hook of the queue: it attaches listeners that log the
  queue's counts and does not affect scheduling.
\<close>

definition logQueueStats :: "PQueue \<Rightarrow> string \<Rightarrow> world \<Rightarrow> world" where
  "logQueueStats q name w =
     emit (LogQueueStats (qid q) name) (w\<lparr>listening := insert (qid q) (listening w)\<rparr>)"

definition removeAllListeners :: "PQueue \<Rightarrow> world \<Rightarrow> world" where
  "removeAllListeners q w =
     emit (RemoveAllListeners (qid q)) (w\<lparr>listening := listening w - {qid q}\<rparr>)"

text \<open>
  A \<open>ComlinkWorker\<close> pairs a dedicated worker with the remote class \<open>comlink\<close> bound to
  it; it is identified by its worker. An \<open>EnteWorker\<close> is an instance made by
  \<open>new cw.comlink()\<close>: it has its own identity and runs on the worker of \<open>cw\<close>.
\<close>

datatype ComlinkWorker = ComlinkWorker (worker: nat)

datatype EnteWorker = EnteWorker (ident: nat) (backing: nat)

text \<open>
  What the two creation calls of one \<open>getEnteWorker\<close> call do when they are reached:
  each either returns or throws the given error.
\<close>

record outcomes =
  getDedicatedCryptoWorker_throws :: "js_error option"
  comlink_throws :: "js_error option"

text \<open>
  Modelled from the spec: \<open>getDedicatedCryptoWorker\<close> of \<open>utils/crypto\<close> is not among the
  sources. It is the factory of the pool's backing execution contexts: a call that
  returns has created a new dedicated worker.
\<close>

definition getDedicatedCryptoWorker :: "outcomes \<Rightarrow> world \<Rightarrow> (js_error + ComlinkWorker) \<times> world" where
  "getDedicatedCryptoWorker oc w =
     (case getDedicatedCryptoWorker_throws oc of
        Some e \<Rightarrow> (Inl e, w)
      | None \<Rightarrow>
          (Inr (ComlinkWorker (fresh w)),
           emit (GetDedicatedCryptoWorker (fresh w)) (w\<lparr>fresh := Suc (fresh w)\<rparr>)))"

text \<open>
  \<open>new cw.comlink()\<close>. The class \<open>comlink\<close> of a \<open>ComlinkWorker\<close> is declared in
  \<open>utils/comlink\<close>, which is not among the sources, with type \<open>any\<close>. Whether the
  instantiation returns or throws is therefore a parameter of the call (its
  \<open>outcomes\<close>); when it returns, the result is a new handle bound to the worker of \<open>cw\<close>.
\<close>

definition new_comlink :: "ComlinkWorker \<Rightarrow> outcomes \<Rightarrow> world \<Rightarrow> (js_error + EnteWorker) \<times> world" where
  "new_comlink cw oc w =
     (case comlink_throws oc of
        Some e \<Rightarrow> (Inl e, w)
      | None \<Rightarrow>
          (Inr (EnteWorker (fresh w) (worker cw)),
           emit (NewComlink (fresh w) (worker cw)) (w\<lparr>fresh := Suc (fresh w)\<rparr>)))"

text \<open>\<open>cw?.worker.terminate()\<close>: nothing for \<open>undefined\<close>, else the worker is terminated.\<close>

definition terminate :: "world \<Rightarrow> ComlinkWorker option \<Rightarrow> world" where
  "terminate w x =
     (case x of
        None \<Rightarrow> w
      | Some cw \<Rightarrow> emit (Terminate (worker cw)) (w\<lparr>terminated := insert (worker cw) (terminated w)\<rparr>))"

section \<open>The factory\<close>

datatype service =
    blazeFaceDetectionService
  | arcfaceCropService
  | arcfaceAlignmentService
  | mobileFaceNetEmbeddingService
  | hdbscanClusteringService
  | dbscanClusteringService

definition getFaceDetectionService :: "string \<Rightarrow> js_error + service" where
  "getFaceDetectionService m =
     (if m = ''BlazeFace'' then Inr blazeFaceDetectionService
      else Inl (Error (''Unknon face detection method: '' @ m)))"

definition getFaceCropService :: "string \<Rightarrow> js_error + service" where
  "getFaceCropService m =
     (if m = ''ArcFace'' then Inr arcfaceCropService
      else Inl (Error (''Unknon face crop method: '' @ m)))"

definition getFaceAlignmentService :: "string \<Rightarrow> js_error + service" where
  "getFaceAlignmentService m =
     (if m = ''ArcFace'' then Inr arcfaceAlignmentService
      else Inl (Error (''Unknon face alignment method: '' @ m)))"

definition getFaceEmbeddingService :: "string \<Rightarrow> js_error + service" where
  "getFaceEmbeddingService m =
     (if m = ''MobileFaceNet'' then Inr mobileFaceNetEmbeddingService
      else Inl (Error (''Unknon face embedding method: '' @ m)))"

definition getClusteringService :: "string \<Rightarrow> js_error + service" where
  "getClusteringService m =
     (if m = ''Hdbscan'' then Inr hdbscanClusteringService
      else if m = ''Dbscan'' then Inr dbscanClusteringService
      else Inl (Error (''Unknon clustering method: '' @ m)))"

section \<open>The sync context\<close>

text \<open>
  The configuration holds one record per stage, each naming its method. The method's
  type is a union of string literals that is erased at run time, so a method is a
  string.
\<close>

record MethodConfig = "method" :: string

record MLSyncConfig =
  faceDetection :: MethodConfig
  faceCrop :: MethodConfig
  faceAlignment :: MethodConfig
  faceEmbedding :: MethodConfig
  faceClustering :: MethodConfig

typedecl EnteFile
typedecl Face
typedecl MLLibraryData
typedecl JSany

text \<open>
  The fields of the class. A field holds \<open>None\<close> while it is \<open>undefined\<close>: before the
  constructor assigns it, when nothing ever assigns it, or after \<open>undefined\<close> is stored.
\<close>

record LocalMLSyncContext =
  token :: "string option"
  config :: "MLSyncConfig option"
  shouldUpdateMLVersion :: "bool option"
  faceDetectionService :: "service option"
  faceCropService :: "service option"
  faceAlignmentService :: "service option"
  faceEmbeddingService :: "service option"
  faceClusteringService :: "service option"
  localFilesMap :: "(int \<rightharpoonup> EnteFile) option"
  outOfSyncFiles :: "EnteFile list option"
  nSyncedFiles :: "int option"
  nSyncedFaces :: "int option"
  allSyncedFacesMap :: "(int \<rightharpoonup> Face list) option"
  tsne :: "JSany option"
  error :: "js_error option"
  mlLibraryData :: "MLLibraryData option"
  syncQueue :: "PQueue option"
  concurrency :: "int option"
  enteComlinkWorkers :: "ComlinkWorker jsarray option"
  enteWorkers :: "EnteWorker jsarray option"

text \<open>The object \<open>new\<close> hands to the constructor: no field assigned yet.\<close>

definition blank :: LocalMLSyncContext where
  "blank =
     \<lparr>token = None, config = None, shouldUpdateMLVersion = None,
      faceDetectionService = None, faceCropService = None, faceAlignmentService = None,
      faceEmbeddingService = None, faceClusteringService = None,
      localFilesMap = None, outOfSyncFiles = None, nSyncedFiles = None, nSyncedFaces = None,
      allSyncedFacesMap = None, tsne = None, error = None, mlLibraryData = None,
      syncQueue = None, concurrency = None, enteComlinkWorkers = None, enteWorkers = None\<rparr>"

text \<open>
  The constructor, statement by statement. It returns the error it threw, if any, the
  object as it stands at that moment, and the world. Its last argument is the constant
  \<open>CONCURRENCY\<close> of \<open>utils/common/concurrency\<close>, which is not among the sources.
  \<open>shouldUpdateMLVersion\<close> defaults to \<open>true\<close>; \<open>concurrency || CONCURRENCY\<close> takes the
  default when the argument is absent or zero.
\<close>

definition LocalMLSyncContext_constructor ::
  "string \<Rightarrow> MLSyncConfig \<Rightarrow> bool option \<Rightarrow> int option \<Rightarrow> int \<Rightarrow> world
     \<Rightarrow> js_error option \<times> LocalMLSyncContext \<times> world" where
  "LocalMLSyncContext_constructor tok cfg upd conc CONCURRENCY w =
     (let this0 = blank\<lparr>token := Some tok, config := Some cfg,
                        shouldUpdateMLVersion := Some (case upd of None \<Rightarrow> True | Some b \<Rightarrow> b)\<rparr>
      in case getFaceDetectionService (method (faceDetection cfg)) of
        Inl e \<Rightarrow> (Some e, this0, w)
      | Inr s1 \<Rightarrow>
     (let this1 = this0\<lparr>faceDetectionService := Some s1\<rparr>
      in case getFaceCropService (method (faceCrop cfg)) of
        Inl e \<Rightarrow> (Some e, this1, w)
      | Inr s2 \<Rightarrow>
     (let this2 = this1\<lparr>faceCropService := Some s2\<rparr>
      in case getFaceAlignmentService (method (faceAlignment cfg)) of
        Inl e \<Rightarrow> (Some e, this2, w)
      | Inr s3 \<Rightarrow>
     (let this3 = this2\<lparr>faceAlignmentService := Some s3\<rparr>
      in case getFaceEmbeddingService (method (faceEmbedding cfg)) of
        Inl e \<Rightarrow> (Some e, this3, w)
      | Inr s4 \<Rightarrow>
     (let this4 = this3\<lparr>faceEmbeddingService := Some s4\<rparr>
      in case getClusteringService (method (faceClustering cfg)) of
        Inl e \<Rightarrow> (Some e, this4, w)
      | Inr s5 \<Rightarrow>
     (let c = (case conc of None \<Rightarrow> CONCURRENCY | Some n \<Rightarrow> if n = 0 then CONCURRENCY else n);
          this5 = this4\<lparr>faceClusteringService := Some s5, outOfSyncFiles := Some [],
                        nSyncedFiles := Some 0, nSyncedFaces := Some 0, concurrency := Some c\<rparr>;
          w1 = emit (ConsoleLog c) w
      in case new_PQueue c w1 of
        (Inl e, w2) \<Rightarrow> (Some e, this5, w2)
      | (Inr q, w2) \<Rightarrow>
     (let this6 = this5\<lparr>syncQueue := Some q\<rparr>;
          w3 = logQueueStats q ''sync'' w2
      in case new_Array c of
        Inl e \<Rightarrow> (Some e, this6, w3)
      | Inr a1 \<Rightarrow>
     (let this7 = this6\<lparr>enteComlinkWorkers := Some a1\<rparr>
      in case new_Array c of
        Inl e \<Rightarrow> (Some e, this7, w3)
      | Inr a2 \<Rightarrow> (None, this7\<lparr>enteWorkers := Some a2\<rparr>, w3)))))))))"

text \<open>
  The expression \<open>new LocalMLSyncContext(...)\<close>: the caller gets the object only when
  the constructor did not throw.
\<close>

definition new_LocalMLSyncContext ::
  "string \<Rightarrow> MLSyncConfig \<Rightarrow> bool option \<Rightarrow> int option \<Rightarrow> int \<Rightarrow> world
     \<Rightarrow> (js_error + LocalMLSyncContext) \<times> world" where
  "new_LocalMLSyncContext tok cfg upd conc CONCURRENCY w =
     (case LocalMLSyncContext_constructor tok cfg upd conc CONCURRENCY w of
        (Some e, this, w') \<Rightarrow> (Inl e, w')
      | (None, this, w') \<Rightarrow> (Inr this, w'))"

definition getMLSyncContext ::
  "string \<Rightarrow> MLSyncConfig \<Rightarrow> bool option \<Rightarrow> int \<Rightarrow> world
     \<Rightarrow> (js_error + LocalMLSyncContext) \<times> world" where
  "getMLSyncContext tok cfg upd CONCURRENCY w =
     new_LocalMLSyncContext tok cfg (Some (case upd of None \<Rightarrow> True | Some b \<Rightarrow> b)) None CONCURRENCY w"

text \<open>
  \<open>getEnteWorker\<close>. The method is \<open>async\<close> but its body contains no \<open>await\<close>, so it runs
  from its first statement to its \<open>return\<close> without yielding: the promise it returns is
  already settled, and calls made by concurrent tasks execute one whole body after the
  other. A stored handle is an object, hence truthy; only an absent property makes
  \<open>!this.enteWorkers[wid]\<close> true. The value returned after a creation is the handle that
  was just stored under \<open>wid\<close>.
\<close>

definition getEnteWorker ::
  "LocalMLSyncContext \<Rightarrow> int \<Rightarrow> outcomes \<Rightarrow> world
     \<Rightarrow> EnteWorker promise \<times> LocalMLSyncContext \<times> world" where
  "getEnteWorker this taskid oc w =
     (case enteWorkers this of
        None \<Rightarrow> (Rejected (TypeError ''Cannot read properties of undefined''), this, w)
      | Some ews \<Rightarrow>
     (let wid = js_rem taskid (int (alength ews))
      in case aget ews wid of
        Some h \<Rightarrow> (Resolved h, this, w)
      | None \<Rightarrow>
     (case getDedicatedCryptoWorker oc w of
        (Inl e, w1) \<Rightarrow> (Rejected e, this, w1)
      | (Inr cw, w1) \<Rightarrow>
     (case enteComlinkWorkers this of
        None \<Rightarrow> (Rejected (TypeError ''Cannot set properties of undefined''), this, w1)
      | Some cws \<Rightarrow>
     (let this1 = this\<lparr>enteComlinkWorkers := Some (aset cws wid cw)\<rparr>
      in case new_comlink cw oc w1 of
        (Inl e, w2) \<Rightarrow> (Rejected e, this1, w2)
      | (Inr h, w2) \<Rightarrow>
          (Resolved h, this1\<lparr>enteWorkers := Some (aset ews wid h)\<rparr>, w2))))))"

text \<open>
  \<open>dispose\<close>. At \<open>await this.syncQueue.onIdle()\<close> the method is suspended and the tasks
  of the queue run; what they do to the context and the world until the queue is idle
  is the argument \<open>tasks\<close>, which yields \<open>None\<close> when the queue never becomes idle. The
  statements after the \<open>await\<close> read the fields as they are at that moment.
\<close>

definition dispose ::
  "LocalMLSyncContext
     \<Rightarrow> (LocalMLSyncContext \<times> world \<Rightarrow> (LocalMLSyncContext \<times> world) option)
     \<Rightarrow> world \<Rightarrow> unit promise \<times> LocalMLSyncContext \<times> world" where
  "dispose this tasks w =
     (let this1 = this\<lparr>localFilesMap := None\<rparr>
      in case syncQueue this1 of
        None \<Rightarrow> (Rejected (TypeError ''Cannot read properties of undefined''), this1, w)
      | Some q \<Rightarrow>
     (let w1 = emit (OnIdle (qid q)) w
      in case tasks (this1, w1) of
        None \<Rightarrow> (Pending, this1, w1)
      | Some (this2, w2) \<Rightarrow>
     (case syncQueue this2 of
        None \<Rightarrow> (Rejected (TypeError ''Cannot read properties of undefined''), this2, w2)
      | Some q2 \<Rightarrow>
     (let w3 = removeAllListeners q2 w2
      in case enteComlinkWorkers this2 of
        None \<Rightarrow> (Rejected (TypeError ''undefined is not iterable''), this2, w3)
      | Some cws \<Rightarrow> (Resolved (), this2, foldl terminate w3 (elements cws))))))"

text \<open>No task runs during the \<open>await\<close>: the queue is idle already.\<close>

definition idle :: "LocalMLSyncContext \<times> world \<Rightarrow> (LocalMLSyncContext \<times> world) option" where
  "idle s = Some s"

text \<open>The queue never becomes idle.\<close>

definition busy :: "LocalMLSyncContext \<times> world \<Rightarrow> (LocalMLSyncContext \<times> world) option" where
  "busy s = None"

section \<open>Sequences of calls\<close>

text \<open>
  A sequence of \<open>getEnteWorker\<close> calls on one context, each with its task id and the
  outcomes of its creation calls. \<open>run\<close> gives the context and the world after the last
  call.
\<close>

fun run ::
  "LocalMLSyncContext \<Rightarrow> world \<Rightarrow> (int \<times> outcomes) list \<Rightarrow> LocalMLSyncContext \<times> world" where
  "run this w [] = (this, w)"
| "run this w ((taskid, oc) # cs) =
     (case getEnteWorker this taskid oc w of (r, this', w') \<Rightarrow> run this' w' cs)"

text \<open>The property key a call with this task id uses, when the array is there.\<close>

definition wid_of :: "LocalMLSyncContext \<Rightarrow> int \<Rightarrow> jskey option" where
  "wid_of this taskid =
     (case enteWorkers this of None \<Rightarrow> None | Some ews \<Rightarrow> Some (js_rem taskid (int (alength ews))))"

text \<open>The workers whose creation the given events record.\<close>

fun created :: "event list \<Rightarrow> nat list" where
  "created [] = []"
| "created (GetDedicatedCryptoWorker n # es) = n # created es"
| "created (e # es) = created es"

text \<open>
  \<open>history\<close> lists, for each call of the sequence in order: the key it used, the
  settled promise it returned, and the workers it created.
\<close>

fun history ::
  "LocalMLSyncContext \<Rightarrow> world \<Rightarrow> (int \<times> outcomes) list
     \<Rightarrow> (jskey option \<times> EnteWorker promise \<times> nat list) list" where
  "history this w [] = []"
| "history this w ((taskid, oc) # cs) =
     (case getEnteWorker this taskid oc w of
        (r, this', w') \<Rightarrow>
          (wid_of this taskid, r, created (drop (length (events w)) (events w')))
            # history this' w' cs)"

text \<open>
  Tasks that run while \<open>dispose\<close> awaits the idle queue: they make the given
  \<open>getEnteWorker\<close> calls, then the queue is idle.
\<close>

definition acquiring ::
  "(int \<times> outcomes) list \<Rightarrow> LocalMLSyncContext \<times> world \<Rightarrow> (LocalMLSyncContext \<times> world) option" where
  "acquiring cs s = Some (run (fst s) (snd s) cs)"

section \<open>Observations on a context\<close>

text \<open>\<open>this.enteWorkers[k]\<close> and \<open>this.enteComlinkWorkers[k]\<close>, \<open>None\<close> for \<open>undefined\<close>.\<close>

definition handle_at :: "LocalMLSyncContext \<Rightarrow> jskey \<Rightarrow> EnteWorker option" where
  "handle_at this k = (case enteWorkers this of None \<Rightarrow> None | Some ews \<Rightarrow> aget ews k)"

definition context_at :: "LocalMLSyncContext \<Rightarrow> jskey \<Rightarrow> ComlinkWorker option" where
  "context_at this k = (case enteComlinkWorkers this of None \<Rightarrow> None | Some cws \<Rightarrow> aget cws k)"

text \<open>The values held by the populated slots of an array, in slot order.\<close>

definition populated :: "'a jsarray \<Rightarrow> 'a list" where
  "populated arr = concat (map (\<lambda>x. case x of None \<Rightarrow> [] | Some v \<Rightarrow> [v]) (elements arr))"

text \<open>Both pool arrays are there and have length \<open>n\<close>.\<close>

definition pool :: "nat \<Rightarrow> LocalMLSyncContext \<Rightarrow> bool" where
  "pool n this =
     (case (enteComlinkWorkers this, enteWorkers this) of
        (Some cws, Some ews) \<Rightarrow> alength cws = n \<and> alength ews = n
      | _ \<Rightarrow> False)"

text \<open>
  Every stored handle runs on the worker stored under the same key of the other array.
\<close>

definition linked :: "LocalMLSyncContext \<Rightarrow> bool" where
  "linked this =
     (\<forall>k h. handle_at this k = Some h \<longrightarrow> context_at this k = Some (ComlinkWorker (backing h)))"

text \<open>A key without a handle has no \<open>ComlinkWorker\<close> either.\<close>

definition paired :: "LocalMLSyncContext \<Rightarrow> bool" where
  "paired this = (\<forall>k. handle_at this k = None \<longrightarrow> context_at this k = None)"

text \<open>The context with its two pool arrays blanked: every other field as it is.\<close>

definition without_pool :: "LocalMLSyncContext \<Rightarrow> LocalMLSyncContext" where
  "without_pool this = this\<lparr>enteComlinkWorkers := None, enteWorkers := None\<rparr>"

text \<open>The fields that are assigned once, at the start of the constructor.\<close>

definition frozen ::
  "LocalMLSyncContext \<Rightarrow>
     string option \<times> MLSyncConfig option \<times> bool option \<times>
     (service option \<times> service option \<times> service option \<times> service option \<times> service option) \<times>
     int option" where
  "frozen this =
     (token this, config this, shouldUpdateMLVersion this,
      (faceDetectionService this, faceCropService this, faceAlignmentService this,
       faceEmbeddingService this, faceClusteringService this),
      concurrency this)"


text \<open>
  The world after \<open>getDedicatedCryptoWorker\<close> returned, and after \<open>new cw.comlink()\<close>
  returned as well.
\<close>

definition spawned :: "world \<Rightarrow> world" where
  "spawned w = emit (GetDedicatedCryptoWorker (fresh w)) (w\<lparr>fresh := Suc (fresh w)\<rparr>)"

definition wrapped :: "world \<Rightarrow> world" where
  "wrapped w =
     emit (NewComlink (Suc (fresh w)) (fresh w)) ((spawned w)\<lparr>fresh := Suc (Suc (fresh w))\<rparr>)"

section \<open>Stage categories\<close>

text \<open>
  The five stage categories, the factory function of each, the configuration field the
  constructor reads for each, and the words that name the category in the factory's
  error message.
\<close>

datatype category = FaceDetection | FaceCrop | FaceAlignment | FaceEmbedding | FaceClustering

fun resolve :: "category \<Rightarrow> string \<Rightarrow> js_error + service" where
  "resolve FaceDetection m = getFaceDetectionService m"
| "resolve FaceCrop m = getFaceCropService m"
| "resolve FaceAlignment m = getFaceAlignmentService m"
| "resolve FaceEmbedding m = getFaceEmbeddingService m"
| "resolve FaceClustering m = getClusteringService m"

fun stage_method :: "category \<Rightarrow> MLSyncConfig \<Rightarrow> string" where
  "stage_method FaceDetection cfg = method (faceDetection cfg)"
| "stage_method FaceCrop cfg = method (faceCrop cfg)"
| "stage_method FaceAlignment cfg = method (faceAlignment cfg)"
| "stage_method FaceEmbedding cfg = method (faceEmbedding cfg)"
| "stage_method FaceClustering cfg = method (faceClustering cfg)"

fun category_words :: "category \<Rightarrow> string" where
  "category_words FaceDetection = ''face detection''"
| "category_words FaceCrop = ''face crop''"
| "category_words FaceAlignment = ''face alignment''"
| "category_words FaceEmbedding = ''face embedding''"
| "category_words FaceClustering = ''clustering''"

section \<open>Example inputs\<close>

definition cfg0 :: MLSyncConfig where
  "cfg0 =
     \<lparr>faceDetection = \<lparr>method = ''BlazeFace''\<rparr>, faceCrop = \<lparr>method = ''ArcFace''\<rparr>,
      faceAlignment = \<lparr>method = ''ArcFace''\<rparr>, faceEmbedding = \<lparr>method = ''MobileFaceNet''\<rparr>,
      faceClustering = \<lparr>method = ''Dbscan''\<rparr>\<rparr>"

definition world_empty :: world where
  "world_empty = \<lparr>fresh = 0, listening = {}, terminated = {}, events = []\<rparr>"

definition ok :: outcomes where
  "ok = \<lparr>getDedicatedCryptoWorker_throws = None, comlink_throws = None\<rparr>"

definition comlink_fails :: outcomes where
  "comlink_fails =
     \<lparr>getDedicatedCryptoWorker_throws = None, comlink_throws = Some (Error ''comlink'')\<rparr>"

definition worker_fails :: outcomes where
  "worker_fails =
     \<lparr>getDedicatedCryptoWorker_throws = Some (Error ''worker''), comlink_throws = None\<rparr>"

definition cfg_bad :: MLSyncConfig where
  "cfg_bad = cfg0\<lparr>faceCrop := \<lparr>method = ''Foo''\<rparr>\<rparr>"

text \<open>
  The context and the world that \<open>new LocalMLSyncContext(''t'', cfg0, undefined, 2)\<close>
  gives in the empty world, whatever \<open>CONCURRENCY\<close> is.
\<close>

definition ctx0 :: LocalMLSyncContext where
  "ctx0 =
     \<lparr>token = Some ''t'', config = Some cfg0, shouldUpdateMLVersion = Some True,
      faceDetectionService = Some blazeFaceDetectionService,
      faceCropService = Some arcfaceCropService,
      faceAlignmentService = Some arcfaceAlignmentService,
      faceEmbeddingService = Some mobileFaceNetEmbeddingService,
      faceClusteringService = Some dbscanClusteringService,
      localFilesMap = None, outOfSyncFiles = Some [], nSyncedFiles = Some 0,
      nSyncedFaces = Some 0, allSyncedFacesMap = None, tsne = None, error = None,
      mlLibraryData = None, syncQueue = Some (PQueue 0), concurrency = Some 2,
      enteComlinkWorkers = Some \<lparr>alength = 2, aprops = Map.empty\<rparr>,
      enteWorkers = Some \<lparr>alength = 2, aprops = Map.empty\<rparr>\<rparr>"

definition world_built :: world where
  "world_built =
     \<lparr>fresh = 1, listening = {0}, terminated = {},
      events = [ConsoleLog 2, NewPQueue 0 2, LogQueueStats 0 ''sync'']\<rparr>"

text \<open>Three calls on two slots: task ids 0 and 2 share slot 0.\<close>

definition calls0 :: "(int \<times> outcomes) list" where
  "calls0 = [(0, ok), (2, ok), (1, ok)]"

text \<open>The example context and world after those calls.\<close>

definition ctx1 :: LocalMLSyncContext where
  "ctx1 = fst (run ctx0 world_built calls0)"

definition world1 :: world where
  "world1 = snd (run ctx0 world_built calls0)"

text \<open>The example context after one call, which fills slot 0 and leaves slot 1 empty.\<close>

definition ctx_a :: LocalMLSyncContext where
  "ctx_a = fst (run ctx0 world_built [(0, ok)])"

definition world_a :: world where
  "world_a = snd (run ctx0 world_built [(0, ok)])"





text \<open>The example context of three calls after a fourth, \<open>getEnteWorker(-1)\<close>.\<close>

definition ctx_n :: LocalMLSyncContext where
  "ctx_n = fst (run ctx0 world_built (calls0 @ [(- 1, ok)]))"

definition world_n :: world where
  "world_n = snd (run ctx0 world_built (calls0 @ [(- 1, ok)]))"

section \<open>One call of getEnteWorker\<close>

text \<open>The six ways through the body.\<close>

lemma getEnteWorker_cases [case_names undef hit spawn_fails no_array comlink_fails made]:
  obtains
    "enteWorkers this = None"
    "getEnteWorker this i oc w = (Rejected (TypeError ''Cannot read properties of undefined''), this, w)"
  | ews h where "enteWorkers this = Some ews" "aprops ews (js_rem i (int (alength ews))) = Some h"
    "getEnteWorker this i oc w = (Resolved h, this, w)"
  | ews e where "enteWorkers this = Some ews" "aprops ews (js_rem i (int (alength ews))) = None"
    "getDedicatedCryptoWorker_throws oc = Some e"
    "getEnteWorker this i oc w = (Rejected e, this, w)"
  | ews where "enteWorkers this = Some ews" "aprops ews (js_rem i (int (alength ews))) = None"
    "getDedicatedCryptoWorker_throws oc = None" "enteComlinkWorkers this = None"
    "getEnteWorker this i oc w = (Rejected (TypeError ''Cannot set properties of undefined''), this, spawned w)"
  | ews cws e where "enteWorkers this = Some ews" "aprops ews (js_rem i (int (alength ews))) = None"
    "getDedicatedCryptoWorker_throws oc = None" "enteComlinkWorkers this = Some cws"
    "comlink_throws oc = Some e"
    "getEnteWorker this i oc w =
       (Rejected e,
        this\<lparr>enteComlinkWorkers := Some (aset cws (js_rem i (int (alength ews))) (ComlinkWorker (fresh w)))\<rparr>,
        spawned w)"
  | ews cws where "enteWorkers this = Some ews" "aprops ews (js_rem i (int (alength ews))) = None"
    "getDedicatedCryptoWorker_throws oc = None" "enteComlinkWorkers this = Some cws"
    "comlink_throws oc = None"
    "getEnteWorker this i oc w =
       (Resolved (EnteWorker (Suc (fresh w)) (fresh w)),
        this\<lparr>enteComlinkWorkers := Some (aset cws (js_rem i (int (alength ews))) (ComlinkWorker (fresh w))),
             enteWorkers := Some (aset ews (js_rem i (int (alength ews))) (EnteWorker (Suc (fresh w)) (fresh w)))\<rparr>,
        wrapped w)"
proof (cases "enteWorkers this")
  case None
  then have "getEnteWorker this i oc w = (Rejected (TypeError ''Cannot read properties of undefined''), this, w)"
    by (simp add: getEnteWorker_def)
  with None show ?thesis by (rule that(1))
next
  case (Some ews)
  let ?k = "js_rem i (int (alength ews))"
  show ?thesis
  proof (cases "aprops ews ?k")
    case (Some h)
    with \<open>enteWorkers this = Some ews\<close>
    have "getEnteWorker this i oc w = (Resolved h, this, w)"
      by (simp add: getEnteWorker_def aget_def)
    with \<open>enteWorkers this = Some ews\<close> Some show ?thesis by (rule that(2))
  next
    case None
    note empty = None
    show ?thesis
    proof (cases "getDedicatedCryptoWorker_throws oc")
      case (Some e)
      with \<open>enteWorkers this = Some ews\<close> empty
      have "getEnteWorker this i oc w = (Rejected e, this, w)"
        by (simp add: getEnteWorker_def aget_def getDedicatedCryptoWorker_def)
      with \<open>enteWorkers this = Some ews\<close> empty Some show ?thesis by (rule that(3))
    next
      case None
      note sp = None
      show ?thesis
      proof (cases "enteComlinkWorkers this")
        case None
        with \<open>enteWorkers this = Some ews\<close> empty sp
        have "getEnteWorker this i oc w
                = (Rejected (TypeError ''Cannot set properties of undefined''), this, spawned w)"
          by (simp add: getEnteWorker_def aget_def getDedicatedCryptoWorker_def spawned_def)
        with \<open>enteWorkers this = Some ews\<close> empty sp None show ?thesis by (rule that(4))
      next
        case (Some cws)
        note arr = Some
        show ?thesis
        proof (cases "comlink_throws oc")
          case (Some e)
          with \<open>enteWorkers this = Some ews\<close> empty sp arr
          have "getEnteWorker this i oc w =
             (Rejected e,
              this\<lparr>enteComlinkWorkers := Some (aset cws ?k (ComlinkWorker (fresh w)))\<rparr>,
              spawned w)"
            by (simp add: getEnteWorker_def aget_def getDedicatedCryptoWorker_def new_comlink_def spawned_def)
          with \<open>enteWorkers this = Some ews\<close> empty sp arr Some show ?thesis by (rule that(5))
        next
          case None
          with \<open>enteWorkers this = Some ews\<close> empty sp arr
          have "getEnteWorker this i oc w =
             (Resolved (EnteWorker (Suc (fresh w)) (fresh w)),
              this\<lparr>enteComlinkWorkers := Some (aset cws ?k (ComlinkWorker (fresh w))),
                   enteWorkers := Some (aset ews ?k (EnteWorker (Suc (fresh w)) (fresh w)))\<rparr>,
              wrapped w)"
            by (simp add: getEnteWorker_def aget_def getDedicatedCryptoWorker_def new_comlink_def
                  spawned_def wrapped_def emit_def Let_def)
          with \<open>enteWorkers this = Some ews\<close> empty sp arr None show ?thesis by (rule that(6))
        qed
      qed
    qed
  qed
qed

lemma js_rem_nonneg: "0 \<le> i \<Longrightarrow> 0 < n \<Longrightarrow> js_rem i n = Key (i mod n)"
  by (cases "i = 0") (simp_all add: js_rem_def)

lemma js_rem_range:
  assumes "0 < n"
  obtains k where "js_rem i n = Key k" "- n < k" "k < n"
proof -
  have m: "\<bar>i\<bar> mod n < n" "0 \<le> \<bar>i\<bar> mod n" using assms by simp_all
  have "- n < sgn i * (\<bar>i\<bar> mod n) \<and> sgn i * (\<bar>i\<bar> mod n) < n"
  proof (cases "i < 0")
    case True
    with m show ?thesis by (simp add: sgn_if)
  next
    case False
    with m show ?thesis by (cases "i = 0") (simp_all add: sgn_if)
  qed
  with assms show ?thesis by (intro that[of "sgn i * (\<bar>i\<bar> mod \<bar>n\<bar>)"]) (simp_all add: js_rem_def)
qed

lemma aprops_aset [simp]: "aprops (aset arr k v) = (aprops arr)(k \<mapsto> v)"
  by (cases k) (simp_all add: aset_def)

lemma aget_aset_same: "aget (aset arr k v) k = Some v"
  by (simp add: aget_def)

lemma alength_aset_js_rem [simp]:
  "n \<le> alength arr \<Longrightarrow> alength (aset arr (js_rem i (int n)) v) = alength arr"
proof (cases "n = 0")
  case True
  then show ?thesis by (simp add: js_rem_def aset_def)
next
  case False
  assume le: "n \<le> alength arr"
  from False obtain k where k: "js_rem i (int n) = Key k" "k < int n"
    by (rule_tac i = i and n = "int n" in js_rem_range) simp_all
  then have "nat k + 1 \<le> alength arr" using le False by (cases "0 \<le> k") auto
  with k show ?thesis by (simp add: aset_def max_def)
qed

lemma getEnteWorker_frame:
  assumes "getEnteWorker this i oc w = (r, this', w')"
  shows "without_pool this' = without_pool this"
  using assms
  by (cases rule: getEnteWorker_cases[where this=this and i=i and oc=oc and w=w])
     (auto simp: without_pool_def)

lemma getEnteWorker_pool:
  assumes "pool n this" "getEnteWorker this i oc w = (r, this', w')"
  shows "pool n this'"
  using assms by (cases rule: getEnteWorker_cases[where this=this and i=i and oc=oc and w=w]) (auto simp: pool_def)

lemma getEnteWorker_wid_of:
  assumes "getEnteWorker this i oc w = (r, this', w')"
  shows "wid_of this' j = wid_of this j"
  using assms by (cases rule: getEnteWorker_cases[where this=this and i=i and oc=oc and w=w]) (auto simp: wid_of_def)

lemma getEnteWorker_hit:
  assumes "wid_of this i = Some k" "handle_at this k = Some h"
  shows "getEnteWorker this i oc w = (Resolved h, this, w)"
  using assms by (cases rule: getEnteWorker_cases[where this=this and i=i and oc=oc and w=w]) (auto simp: wid_of_def handle_at_def aget_def)

lemma getEnteWorker_stay:
  assumes "handle_at this k = Some h" "getEnteWorker this i oc w = (r, this', w')"
  shows "handle_at this' k = Some h \<and> context_at this' k = context_at this k"
  using assms
  by (cases rule: getEnteWorker_cases[where this=this and i=i and oc=oc and w=w])
     (auto simp: handle_at_def context_at_def aget_def)

lemma getEnteWorker_other:
  assumes "wid_of this i \<noteq> Some k" "getEnteWorker this i oc w = (r, this', w')"
  shows "handle_at this' k = handle_at this k \<and> context_at this' k = context_at this k"
  using assms
  by (cases rule: getEnteWorker_cases[where this=this and i=i and oc=oc and w=w])
     (auto simp: handle_at_def context_at_def aget_def wid_of_def)


lemma getEnteWorker_linked:
  assumes "linked this" "getEnteWorker this i oc w = (r, this', w')"
  shows "linked this'"
  using assms
  by (cases rule: getEnteWorker_cases[where this=this and i=i and oc=oc and w=w])
     (auto simp: linked_def handle_at_def context_at_def aget_def split: option.splits)

section \<open>Properties of sequences of calls\<close>


lemma run_pool: "pool n this \<Longrightarrow> run this w cs = (this', w') \<Longrightarrow> pool n this'"
proof (induction cs arbitrary: this w)
  case Nil
  then show ?case by simp
next
  case (Cons c cs)
  obtain i oc where c: "c = (i, oc)" by (cases c)
  obtain r this1 w1 where g: "getEnteWorker this i oc w = (r, this1, w1)"
    by (cases "getEnteWorker this i oc w")
  from Cons.prems(1) g have "pool n this1" by (rule getEnteWorker_pool)
  moreover from Cons.prems(2) c g have "run this1 w1 cs = (this', w')" by simp
  ultimately show ?case by (rule Cons.IH)
qed

lemma run_linked: "linked this \<Longrightarrow> run this w cs = (this', w') \<Longrightarrow> linked this'"
proof (induction cs arbitrary: this w)
  case Nil
  then show ?case by simp
next
  case (Cons c cs)
  obtain i oc where c: "c = (i, oc)" by (cases c)
  obtain r this1 w1 where g: "getEnteWorker this i oc w = (r, this1, w1)"
    by (cases "getEnteWorker this i oc w")
  from Cons.prems(1) g have "linked this1" by (rule getEnteWorker_linked)
  moreover from Cons.prems(2) c g have "run this1 w1 cs = (this', w')" by simp
  ultimately show ?case by (rule Cons.IH)
qed

lemma run_frame: "run this w cs = (this', w') \<Longrightarrow> without_pool this' = without_pool this"
proof (induction cs arbitrary: this w)
  case Nil
  then show ?case by simp
next
  case (Cons c cs)
  obtain i oc where c: "c = (i, oc)" by (cases c)
  obtain r this1 w1 where g: "getEnteWorker this i oc w = (r, this1, w1)"
    by (cases "getEnteWorker this i oc w")
  from Cons.prems c g have "run this1 w1 cs = (this', w')" by simp
  then have "without_pool this' = without_pool this1" by (rule Cons.IH)
  with getEnteWorker_frame[OF g] show ?case by simp
qed

lemma run_wid_of: "run this w cs = (this', w') \<Longrightarrow> wid_of this' j = wid_of this j"
proof (induction cs arbitrary: this w)
  case Nil
  then show ?case by simp
next
  case (Cons c cs)
  obtain i oc where c: "c = (i, oc)" by (cases c)
  obtain r this1 w1 where g: "getEnteWorker this i oc w = (r, this1, w1)"
    by (cases "getEnteWorker this i oc w")
  from Cons.prems c g have "run this1 w1 cs = (this', w')" by simp
  then have "wid_of this' j = wid_of this1 j" by (rule Cons.IH)
  with getEnteWorker_wid_of[OF g] show ?case by simp
qed

lemma run_stay:
  "handle_at this k = Some h \<Longrightarrow> run this w cs = (this', w') \<Longrightarrow>
   handle_at this' k = Some h \<and> context_at this' k = context_at this k"
proof (induction cs arbitrary: this w)
  case Nil
  then show ?case by simp
next
  case (Cons c cs)
  obtain i oc where c: "c = (i, oc)" by (cases c)
  obtain r this1 w1 where g: "getEnteWorker this i oc w = (r, this1, w1)"
    by (cases "getEnteWorker this i oc w")
  from Cons.prems(1) g
  have s: "handle_at this1 k = Some h \<and> context_at this1 k = context_at this k"
    by (rule getEnteWorker_stay)
  from Cons.prems(2) c g have "run this1 w1 cs = (this', w')" by simp
  with s have "handle_at this' k = Some h \<and> context_at this' k = context_at this1 k"
    by (intro Cons.IH) simp_all
  with s show ?case by simp
qed

lemma run_untouched:
  "\<forall>c \<in> set cs. wid_of this (fst c) \<noteq> Some k \<Longrightarrow> run this w cs = (this', w') \<Longrightarrow>
   handle_at this' k = handle_at this k \<and> context_at this' k = context_at this k"
proof (induction cs arbitrary: this w)
  case Nil
  then show ?case by simp
next
  case (Cons c cs)
  obtain i oc where c: "c = (i, oc)" by (cases c)
  obtain r this1 w1 where g: "getEnteWorker this i oc w = (r, this1, w1)"
    by (cases "getEnteWorker this i oc w")
  from Cons.prems(1) c have "wid_of this i \<noteq> Some k" by simp
  from getEnteWorker_other[OF this g]
  have s: "handle_at this1 k = handle_at this k \<and> context_at this1 k = context_at this k" .
  from Cons.prems(1) have "\<forall>c \<in> set cs. wid_of this1 (fst c) \<noteq> Some k"
    by (simp add: getEnteWorker_wid_of[OF g])
  moreover from Cons.prems(2) c g have "run this1 w1 cs = (this', w')" by simp
  ultimately have "handle_at this' k = handle_at this1 k \<and> context_at this' k = context_at this1 k"
    by (rule Cons.IH)
  with s show ?case by simp
qed





section \<open>Properties of the constructor\<close>

lemmas factory_defs =
  getFaceDetectionService_def getFaceCropService_def getFaceAlignmentService_def
  getFaceEmbeddingService_def getClusteringService_def

text \<open>What a constructor call that does not throw has assigned.\<close>

lemma constructed:
  assumes "new_LocalMLSyncContext tok cfg upd conc CONC w = (Inr this, w')"
  obtains c where
    "c = (case conc of None \<Rightarrow> CONC | Some n \<Rightarrow> if n = 0 then CONC else n)"
    "1 \<le> c" "c < 2 ^ 32"
    "this = blank
       \<lparr>token := Some tok, config := Some cfg,
        shouldUpdateMLVersion := Some (case upd of None \<Rightarrow> True | Some b \<Rightarrow> b),
        faceDetectionService := Some blazeFaceDetectionService,
        faceCropService := Some arcfaceCropService,
        faceAlignmentService := Some arcfaceAlignmentService,
        faceEmbeddingService := Some mobileFaceNetEmbeddingService,
        faceClusteringService :=
          Some (if method (faceClustering cfg) = ''Hdbscan'' then hdbscanClusteringService
                else dbscanClusteringService),
        outOfSyncFiles := Some [], nSyncedFiles := Some 0, nSyncedFaces := Some 0,
        concurrency := Some c, syncQueue := Some (PQueue (fresh w)),
        enteComlinkWorkers := Some \<lparr>alength = nat c, aprops = Map.empty\<rparr>,
        enteWorkers := Some \<lparr>alength = nat c, aprops = Map.empty\<rparr>\<rparr>"
    "w' = logQueueStats (PQueue (fresh w)) ''sync''
            (emit (NewPQueue (fresh w) c) ((emit (ConsoleLog c) w)\<lparr>fresh := Suc (fresh w)\<rparr>))"
proof -
  let ?c = "case conc of None \<Rightarrow> CONC | Some n \<Rightarrow> if n = 0 then CONC else n"
  from assms have m: "method (faceDetection cfg) = ''BlazeFace''"
    "method (faceCrop cfg) = ''ArcFace''" "method (faceAlignment cfg) = ''ArcFace''"
    "method (faceEmbedding cfg) = ''MobileFaceNet''"
    "method (faceClustering cfg) = ''Hdbscan'' \<or> method (faceClustering cfg) = ''Dbscan''"
    by (auto simp: new_LocalMLSyncContext_def LocalMLSyncContext_constructor_def factory_defs
          split: if_splits)
  from assms m have c: "1 \<le> ?c" "?c < 2 ^ 32"
    by (auto simp: new_LocalMLSyncContext_def LocalMLSyncContext_constructor_def factory_defs
          new_PQueue_def new_Array_def Let_def split: if_splits)
  from assms m c show ?thesis
    by (intro that[of ?c])
       (auto simp: new_LocalMLSyncContext_def LocalMLSyncContext_constructor_def factory_defs
          new_PQueue_def new_Array_def Let_def emit_def split: if_splits)
qed

lemma constructed_pool:
  assumes "new_LocalMLSyncContext tok cfg upd conc CONC w = (Inr this, w')"
  shows "\<exists>c. concurrency this = Some c \<and> 1 \<le> c \<and> pool (nat c) this"
  using assms by (rule constructed) (simp add: pool_def blank_def)

lemma constructed_empty:
  assumes "new_LocalMLSyncContext tok cfg upd conc CONC w = (Inr this, w')"
  shows "handle_at this k = None \<and> context_at this k = None"
  using assms by (rule constructed) (simp add: handle_at_def context_at_def aget_def blank_def)

lemma constructed_linked:
  assumes "new_LocalMLSyncContext tok cfg upd conc CONC w = (Inr this, w')"
  shows "linked this"
  using constructed_empty[OF assms] by (simp add: linked_def)

lemma pool_wid_of:
  assumes "pool n this" "0 < n" "0 \<le> i"
  shows "wid_of this i = Some (Key (i mod int n))"
  using assms by (auto simp: pool_def wid_of_def js_rem_nonneg split: option.splits)

section \<open>Properties of dispose\<close>

lemma terminate_all_events:
  "events (foldl terminate w xs) =
     events w @ map (\<lambda>cw. Terminate (worker cw)) (concat (map (\<lambda>x. case x of None \<Rightarrow> [] | Some v \<Rightarrow> [v]) xs))"
  by (induction xs arbitrary: w) (auto simp: terminate_def emit_def split: option.splits)

lemma terminate_all_terminated:
  "terminated (foldl terminate w xs) =
     terminated w \<union> worker ` set (concat (map (\<lambda>x. case x of None \<Rightarrow> [] | Some v \<Rightarrow> [v]) xs))"
  by (induction xs arbitrary: w) (auto simp: terminate_def emit_def split: option.splits)

lemma terminate_all_rest:
  "fresh (foldl terminate w xs) = fresh w \<and> listening (foldl terminate w xs) = listening w"
  by (induction xs arbitrary: w) (auto simp: terminate_def emit_def split: option.splits)

lemma dispose_cases [case_names no_queue never_idle queue_gone no_array finished]:
  obtains
    "syncQueue this = None"
    "dispose this tasks w =
       (Rejected (TypeError ''Cannot read properties of undefined''), this\<lparr>localFilesMap := None\<rparr>, w)"
  | q where "syncQueue this = Some q"
    "tasks (this\<lparr>localFilesMap := None\<rparr>, emit (OnIdle (qid q)) w) = None"
    "dispose this tasks w = (Pending, this\<lparr>localFilesMap := None\<rparr>, emit (OnIdle (qid q)) w)"
  | q this2 w2 where "syncQueue this = Some q"
    "tasks (this\<lparr>localFilesMap := None\<rparr>, emit (OnIdle (qid q)) w) = Some (this2, w2)"
    "syncQueue this2 = None"
    "dispose this tasks w = (Rejected (TypeError ''Cannot read properties of undefined''), this2, w2)"
  | q this2 w2 q2 where "syncQueue this = Some q"
    "tasks (this\<lparr>localFilesMap := None\<rparr>, emit (OnIdle (qid q)) w) = Some (this2, w2)"
    "syncQueue this2 = Some q2" "enteComlinkWorkers this2 = None"
    "dispose this tasks w =
       (Rejected (TypeError ''undefined is not iterable''), this2, removeAllListeners q2 w2)"
  | q this2 w2 q2 cws where "syncQueue this = Some q"
    "tasks (this\<lparr>localFilesMap := None\<rparr>, emit (OnIdle (qid q)) w) = Some (this2, w2)"
    "syncQueue this2 = Some q2" "enteComlinkWorkers this2 = Some cws"
    "dispose this tasks w =
       (Resolved (), this2, foldl terminate (removeAllListeners q2 w2) (elements cws))"
proof (cases "syncQueue this")
  case None
  then have "dispose this tasks w =
       (Rejected (TypeError ''Cannot read properties of undefined''), this\<lparr>localFilesMap := None\<rparr>, w)"
    by (simp add: dispose_def)
  with None show ?thesis by (rule that(1))
next
  case (Some q)
  note q = Some
  show ?thesis
  proof (cases "tasks (this\<lparr>localFilesMap := None\<rparr>, emit (OnIdle (qid q)) w)")
    case None
    with q have "dispose this tasks w = (Pending, this\<lparr>localFilesMap := None\<rparr>, emit (OnIdle (qid q)) w)"
      by (simp add: dispose_def Let_def)
    with q None show ?thesis by (rule that(2))
  next
    case (Some s)
    obtain this2 w2 where s: "s = (this2, w2)" by (cases s)
    note t = Some[unfolded s]
    show ?thesis
    proof (cases "syncQueue this2")
      case None
      with q t have "dispose this tasks w =
          (Rejected (TypeError ''Cannot read properties of undefined''), this2, w2)"
        by (simp add: dispose_def Let_def)
      with q t None show ?thesis by (rule that(3))
    next
      case (Some q2)
      note q2 = Some
      show ?thesis
      proof (cases "enteComlinkWorkers this2")
        case None
        with q t q2 have "dispose this tasks w =
            (Rejected (TypeError ''undefined is not iterable''), this2, removeAllListeners q2 w2)"
          by (simp add: dispose_def Let_def)
        with q t q2 None show ?thesis by (rule that(4))
      next
        case (Some cws)
        with q t q2 have "dispose this tasks w =
            (Resolved (), this2, foldl terminate (removeAllListeners q2 w2) (elements cws))"
          by (simp add: dispose_def Let_def)
        with q t q2 Some show ?thesis by (rule that(5))
      qed
    qed
  qed
qed

section \<open>The example context\<close>

lemma built0: "new_LocalMLSyncContext ''t'' cfg0 None (Some 2) 4 world_empty = (Inr ctx0, world_built)"
  by (simp add: new_LocalMLSyncContext_def LocalMLSyncContext_constructor_def factory_defs
        cfg0_def world_empty_def ctx0_def world_built_def blank_def new_PQueue_def new_Array_def emit_def
        logQueueStats_def Let_def)

section \<open>The claims\<close>

text \<open>
  C1. When the method name of some stage is not registered for its category, the
  constructor throws at once: the error is the factory's \<open>Error\<close> whose message names
  the category and carries the method name, nothing outside the context has been
  called (the world is unchanged: no queue was made, nothing was logged), and in the
  object under construction the counters, \<open>outOfSyncFiles\<close>, \<open>concurrency\<close>, the queue
  and both pool arrays are still unassigned. The \<open>new\<close> expression yields that error
  and no context.
\<close>

theorem C1_unknown_method_fails_construction:
  assumes "isl (resolve c (stage_method c cfg))"
  shows "\<exists>c. isl (resolve c (stage_method c cfg)) \<and>
     (case LocalMLSyncContext_constructor tok cfg upd conc CONC w of
        (thrown, this, w') \<Rightarrow>
          thrown = Some (Error (''Unknon '' @ category_words c @ '' method: '' @ stage_method c cfg))
        \<and> w' = w
        \<and> outOfSyncFiles this = None \<and> nSyncedFiles this = None \<and> nSyncedFaces this = None
        \<and> concurrency this = None \<and> syncQueue this = None
        \<and> enteComlinkWorkers this = None \<and> enteWorkers this = None)
     \<and> new_LocalMLSyncContext tok cfg upd conc CONC w
         = (Inl (Error (''Unknon '' @ category_words c @ '' method: '' @ stage_method c cfg)), w)"
proof -
  consider (d) "method (faceDetection cfg) \<noteq> ''BlazeFace''"
    | (c) "method (faceDetection cfg) = ''BlazeFace''" "method (faceCrop cfg) \<noteq> ''ArcFace''"
    | (a) "method (faceDetection cfg) = ''BlazeFace''" "method (faceCrop cfg) = ''ArcFace''"
          "method (faceAlignment cfg) \<noteq> ''ArcFace''"
    | (e) "method (faceDetection cfg) = ''BlazeFace''" "method (faceCrop cfg) = ''ArcFace''"
          "method (faceAlignment cfg) = ''ArcFace''" "method (faceEmbedding cfg) \<noteq> ''MobileFaceNet''"
    | (k) "method (faceDetection cfg) = ''BlazeFace''" "method (faceCrop cfg) = ''ArcFace''"
          "method (faceAlignment cfg) = ''ArcFace''" "method (faceEmbedding cfg) = ''MobileFaceNet''"
          "method (faceClustering cfg) \<noteq> ''Hdbscan''" "method (faceClustering cfg) \<noteq> ''Dbscan''"
    using assms by (cases c) (auto simp: factory_defs split: if_splits)
  then show ?thesis
  proof cases
    case d
    then show ?thesis
      by (intro exI[of _ FaceDetection])
         (simp add: new_LocalMLSyncContext_def LocalMLSyncContext_constructor_def factory_defs blank_def)
  next
    case c
    then show ?thesis
      by (intro exI[of _ FaceCrop])
         (simp add: new_LocalMLSyncContext_def LocalMLSyncContext_constructor_def factory_defs blank_def)
  next
    case a
    then show ?thesis
      by (intro exI[of _ FaceAlignment])
         (simp add: new_LocalMLSyncContext_def LocalMLSyncContext_constructor_def factory_defs blank_def)
  next
    case e
    then show ?thesis
      by (intro exI[of _ FaceEmbedding])
         (simp add: new_LocalMLSyncContext_def LocalMLSyncContext_constructor_def factory_defs blank_def)
  next
    case k
    then show ?thesis
      by (intro exI[of _ FaceClustering])
         (simp add: new_LocalMLSyncContext_def LocalMLSyncContext_constructor_def factory_defs blank_def)
  qed
qed

theorem C1_unknown_method_fails_construction_witness:
  "isl (resolve FaceCrop (stage_method FaceCrop cfg_bad)) \<and>
   (\<exists>c. isl (resolve c (stage_method c cfg_bad)) \<and>
     new_LocalMLSyncContext ''t'' cfg_bad None (Some 2) 4 world_empty
       = (Inl (Error (''Unknon '' @ category_words c @ '' method: '' @ stage_method c cfg_bad)), world_empty))"
proof -
  have h: "isl (resolve FaceCrop (stage_method FaceCrop cfg_bad))"
    by (simp add: cfg_bad_def cfg0_def getFaceCropService_def)
  from C1_unknown_method_fails_construction[OF h, where tok = "''t''" and upd = None
      and conc = "Some 2" and CONC = 4 and w = world_empty] h
  show ?thesis by blast
qed

text \<open>
  C7, as amended. A constructor call that does not throw has set \<open>concurrency\<close> to the
  explicit argument when that is a positive integer and to \<open>CONCURRENCY\<close> when the
  argument is absent or zero (a negative argument makes the constructor throw), both
  counters to zero and \<open>outOfSyncFiles\<close> to the empty list. It assigns neither
  \<open>localFilesMap\<close> nor \<open>allSyncedFacesMap\<close>: both are \<open>undefined\<close>, not empty maps.
\<close>

theorem C7_construction_initialises:
  assumes "new_LocalMLSyncContext tok cfg upd conc CONC w = (Inr this, w')"
  shows "concurrency this = Some (case conc of None \<Rightarrow> CONC | Some n \<Rightarrow> if 0 < n then n else CONC)
    \<and> nSyncedFiles this = Some 0 \<and> nSyncedFaces this = Some 0 \<and> outOfSyncFiles this = Some []
    \<and> localFilesMap this = None \<and> allSyncedFacesMap this = None"
  using assms
proof (rule constructed)
  fix c
  assume c: "c = (case conc of None \<Rightarrow> CONC | Some n \<Rightarrow> if n = 0 then CONC else n)" "1 \<le> c"
    and shape: "this = blank
       \<lparr>token := Some tok, config := Some cfg,
        shouldUpdateMLVersion := Some (case upd of None \<Rightarrow> True | Some b \<Rightarrow> b),
        faceDetectionService := Some blazeFaceDetectionService,
        faceCropService := Some arcfaceCropService,
        faceAlignmentService := Some arcfaceAlignmentService,
        faceEmbeddingService := Some mobileFaceNetEmbeddingService,
        faceClusteringService :=
          Some (if method (faceClustering cfg) = ''Hdbscan'' then hdbscanClusteringService
                else dbscanClusteringService),
        outOfSyncFiles := Some [], nSyncedFiles := Some 0, nSyncedFaces := Some 0,
        concurrency := Some c, syncQueue := Some (PQueue (fresh w)),
        enteComlinkWorkers := Some \<lparr>alength = nat c, aprops = Map.empty\<rparr>,
        enteWorkers := Some \<lparr>alength = nat c, aprops = Map.empty\<rparr>\<rparr>"
  from c have "c = (case conc of None \<Rightarrow> CONC | Some n \<Rightarrow> if 0 < n then n else CONC)"
    by (auto split: option.splits if_splits)
  with shape show ?thesis by (simp add: blank_def)
qed

theorem C7_construction_initialises_witness:
  "new_LocalMLSyncContext ''t'' cfg0 None (Some 2) 4 world_empty = (Inr ctx0, world_built)
   \<and> concurrency ctx0 = Some 2
   \<and> nSyncedFiles ctx0 = Some 0 \<and> nSyncedFaces ctx0 = Some 0 \<and> outOfSyncFiles ctx0 = Some []
   \<and> localFilesMap ctx0 = None \<and> allSyncedFacesMap ctx0 = None"
  using built0 C7_construction_initialises[OF built0] by simp

text \<open>
  The claim as written fails on the example context: after a successful construction
  \<open>localFilesMap\<close> and \<open>allSyncedFacesMap\<close> are \<open>undefined\<close>.
\<close>

theorem C7_collections_not_initialised_counterexample:
  "fst (new_LocalMLSyncContext ''t'' cfg0 None (Some 2) 4 world_empty) = Inr ctx0
   \<and> localFilesMap ctx0 = None \<and> allSyncedFacesMap ctx0 = None"
  by (simp add: built0) (simp add: ctx0_def)

lemma populated_le: "length (populated arr) \<le> alength arr"
proof -
  have "length (concat (map (\<lambda>x. case x of None \<Rightarrow> [] | Some v \<Rightarrow> [v]) xs)) \<le> length xs"
    for xs :: "'a option list"
    by (induction xs) (auto split: option.splits)
  from this[of "elements arr"] show ?thesis by (simp add: populated_def elements_def)
qed

text \<open>
  C5. In a constructed context both pool arrays have length exactly \<open>concurrency\<close>.
  After any sequence of \<open>getEnteWorker\<close> calls (any task ids, any outcomes of the
  creation calls) \<open>concurrency\<close> is the same, both arrays still have that length, and
  the number of populated slots of each is at most \<open>concurrency\<close>. When no task id of
  the sequence is negative, the arrays hold nothing outside their slots.
\<close>

theorem C5_pool_length_is_concurrency:
  assumes "new_LocalMLSyncContext tok cfg upd conc CONC w = (Inr this, w')"
    and "run this w' cs = (this', w'')"
  shows "(case (concurrency this, enteComlinkWorkers this, enteWorkers this) of
            (Some C, Some cws, Some ews) \<Rightarrow> int (alength cws) = C \<and> int (alength ews) = C
          | _ \<Rightarrow> False)
       \<and> (case (concurrency this', enteComlinkWorkers this', enteWorkers this') of
            (Some C, Some cws, Some ews) \<Rightarrow>
               concurrency this = Some C
             \<and> int (alength cws) = C \<and> int (alength ews) = C
             \<and> int (length (populated cws)) \<le> C \<and> int (length (populated ews)) \<le> C
             \<and> ((\<forall>c \<in> set cs. 0 \<le> fst c) \<longrightarrow>
                  (\<forall>k. aprops cws k \<noteq> None \<or> aprops ews k \<noteq> None
                     \<longrightarrow> (\<exists>j. 0 \<le> j \<and> j < C \<and> k = Key j)))
          | _ \<Rightarrow> False)"
proof -
  from constructed_pool[OF assms(1)] obtain c
    where c: "concurrency this = Some c" "1 \<le> c" "pool (nat c) this" by blast
  from c(3) assms(2) have p': "pool (nat c) this'" by (rule run_pool)
  from run_frame[OF assms(2)] have "concurrency (without_pool this') = concurrency (without_pool this)"
    by simp
  with c(1) have c': "concurrency this' = Some c" by (simp add: without_pool_def)
  from c(3) obtain cws ews where a: "enteComlinkWorkers this = Some cws" "enteWorkers this = Some ews"
    "alength cws = nat c" "alength ews = nat c"
    by (auto simp: pool_def split: option.splits)
  from p' obtain cws' ews' where a': "enteComlinkWorkers this' = Some cws'" "enteWorkers this' = Some ews'"
    "alength cws' = nat c" "alength ews' = nat c"
    by (auto simp: pool_def split: option.splits)
  from populated_le[of cws'] populated_le[of ews'] a'
  have "length (populated cws') \<le> nat c" "length (populated ews') \<le> nat c" by simp_all
  with c(2) have le: "int (length (populated cws')) \<le> c" "int (length (populated ews')) \<le> c"
    by linarith+
  have inside: "\<exists>j. 0 \<le> j \<and> j < c \<and> k = Key j"
    if nonneg: "\<forall>c \<in> set cs. 0 \<le> fst c" and k: "aprops cws' k \<noteq> None \<or> aprops ews' k \<noteq> None"
    for k
  proof (rule ccontr)
    assume out: "\<not> (\<exists>j. 0 \<le> j \<and> j < c \<and> k = Key j)"
    have "wid_of this (fst x) \<noteq> Some k" if "x \<in> set cs" for x
    proof -
      from nonneg that have "0 \<le> fst x" by simp
      from pool_wid_of[OF c(3) _ this] c(2) have "wid_of this (fst x) = Some (Key (fst x mod c))"
        by simp
      moreover from c(2) have "0 \<le> fst x mod c" "fst x mod c < c" by simp_all
      ultimately show ?thesis using out by auto
    qed
    then have "\<forall>x \<in> set cs. wid_of this (fst x) \<noteq> Some k" by blast
    from run_untouched[OF this assms(2)] constructed_empty[OF assms(1), of k]
    have "handle_at this' k = None" "context_at this' k = None" by simp_all
    with a' k show False by (simp add: handle_at_def context_at_def aget_def)
  qed
  from c c' a a' le inside show ?thesis by simp
qed

theorem C5_pool_length_is_concurrency_witness:
  "new_LocalMLSyncContext ''t'' cfg0 None (Some 2) 4 world_empty = (Inr ctx0, world_built)
   \<and> run ctx0 world_built calls0 = (ctx1, world1)
   \<and> list_all (\<lambda>c. 0 \<le> fst c) calls0
   \<and> concurrency ctx0 = Some 2
   \<and> map_option alength (enteComlinkWorkers ctx0) = Some 2
   \<and> map_option alength (enteWorkers ctx0) = Some 2
   \<and> concurrency ctx1 = Some 2
   \<and> map_option alength (enteComlinkWorkers ctx1) = Some 2
   \<and> map_option alength (enteWorkers ctx1) = Some 2
   \<and> map_option (\<lambda>a. length (populated a)) (enteWorkers ctx1) = Some 2
   \<and> handle_at ctx1 (Key 1) = Some (EnteWorker 4 3)"
proof -
  have r: "run ctx0 world_built calls0 = (ctx1, world1)" by (simp add: ctx1_def world1_def)
  have n: "list_all (\<lambda>c. 0 \<le> fst c) calls0" by (simp add: calls0_def)
  have c: "concurrency ctx0 = Some 2" by (simp add: ctx0_def)
  have p: "map_option (\<lambda>a. length (populated a)) (enteWorkers ctx1) = Some 2"
    by code_simp
  have h: "handle_at ctx1 (Key 1) = Some (EnteWorker 4 3)" by code_simp
  from C5_pool_length_is_concurrency[OF built0 r] built0 r n c p h
  show ?thesis by (auto split: option.splits)
qed





section \<open>Creations in a sequence of calls\<close>

lemma created_none [simp]: "created (drop (length (events w)) (events w)) = []"
  by simp

lemma created_spawned [simp]: "created (drop (length (events w)) (events (spawned w))) = [fresh w]"
  by (simp add: spawned_def emit_def)

lemma created_wrapped [simp]: "created (drop (length (events w)) (events (wrapped w))) = [fresh w]"
  by (simp add: wrapped_def spawned_def emit_def)











section \<open>Failed creations\<close>

lemma empty_slot:
  assumes "wid_of this i = Some k" "handle_at this k = None"
  obtains ews where "enteWorkers this = Some ews" "k = js_rem i (int (alength ews))"
    "aprops ews (js_rem i (int (alength ews))) = None"
  using assms by (auto simp: wid_of_def handle_at_def aget_def split: option.splits)

lemma getEnteWorker_worker_throws:
  assumes "wid_of this i = Some k" "handle_at this k = None"
    and "getDedicatedCryptoWorker_throws oc = Some e"
  shows "getEnteWorker this i oc w = (Rejected e, this, w)"
proof -
  from assms(1,2) obtain ews where "enteWorkers this = Some ews"
    "aprops ews (js_rem i (int (alength ews))) = None" by (rule empty_slot)
  with assms(3) show ?thesis
    by (simp add: getEnteWorker_def aget_def getDedicatedCryptoWorker_def)
qed

lemma getEnteWorker_comlink_throws:
  assumes "pool n this" "wid_of this i = Some k" "handle_at this k = None"
    and "getDedicatedCryptoWorker_throws oc = None" "comlink_throws oc = Some e"
  shows "fst (getEnteWorker this i oc w) = Rejected e"
    and "enteWorkers (fst (snd (getEnteWorker this i oc w))) = enteWorkers this"
    and "k' \<noteq> k \<Longrightarrow> context_at (fst (snd (getEnteWorker this i oc w))) k' = context_at this k'"
proof -
  from assms(2,3) obtain ews where e: "enteWorkers this = Some ews"
    "k = js_rem i (int (alength ews))"
    "aprops ews (js_rem i (int (alength ews))) = None" by (rule empty_slot)
  from assms(1) e(1) obtain cws where c: "enteComlinkWorkers this = Some cws"
    by (auto simp: pool_def split: option.splits)
  from e c assms(4,5)
  have g: "getEnteWorker this i oc w =
       (Rejected e,
        this\<lparr>enteComlinkWorkers := Some (aset cws k (ComlinkWorker (fresh w)))\<rparr>,
        spawned w)"
    by (simp add: getEnteWorker_def aget_def getDedicatedCryptoWorker_def new_comlink_def spawned_def)
  show "fst (getEnteWorker this i oc w) = Rejected e" by (simp add: g)
  show "enteWorkers (fst (snd (getEnteWorker this i oc w))) = enteWorkers this" by (simp add: g)
  show "context_at (fst (snd (getEnteWorker this i oc w))) k' = context_at this k'" if "k' \<noteq> k"
    using that c by (simp add: g context_at_def aget_def)
qed

lemma getEnteWorker_creates:
  assumes "pool n this" "wid_of this i = Some k" "handle_at this k = None"
    and "getDedicatedCryptoWorker_throws oc = None" "comlink_throws oc = None"
  shows "fst (getEnteWorker this i oc w) = Resolved (EnteWorker (Suc (fresh w)) (fresh w))"
    and "snd (snd (getEnteWorker this i oc w)) = wrapped w"
    and "handle_at (fst (snd (getEnteWorker this i oc w))) k = Some (EnteWorker (Suc (fresh w)) (fresh w))"
    and "context_at (fst (snd (getEnteWorker this i oc w))) k = Some (ComlinkWorker (fresh w))"
proof -
  from assms(2,3) obtain ews where e: "enteWorkers this = Some ews"
    "k = js_rem i (int (alength ews))"
    "aprops ews (js_rem i (int (alength ews))) = None" by (rule empty_slot)
  from assms(1) e(1) obtain cws where c: "enteComlinkWorkers this = Some cws"
    by (auto simp: pool_def split: option.splits)
  from e c assms(4,5)
  have g: "getEnteWorker this i oc w =
       (Resolved (EnteWorker (Suc (fresh w)) (fresh w)),
        this\<lparr>enteComlinkWorkers := Some (aset cws k (ComlinkWorker (fresh w))),
             enteWorkers := Some (aset ews k (EnteWorker (Suc (fresh w)) (fresh w)))\<rparr>,
        wrapped w)"
    by (simp add: getEnteWorker_def aget_def getDedicatedCryptoWorker_def new_comlink_def
          spawned_def wrapped_def emit_def Let_def)
  show "fst (getEnteWorker this i oc w) = Resolved (EnteWorker (Suc (fresh w)) (fresh w))"
    by (simp add: g)
  show "snd (snd (getEnteWorker this i oc w)) = wrapped w" by (simp add: g)
  show "handle_at (fst (snd (getEnteWorker this i oc w))) k = Some (EnteWorker (Suc (fresh w)) (fresh w))"
    by (simp add: g handle_at_def aget_def)
  show "context_at (fst (snd (getEnteWorker this i oc w))) k = Some (ComlinkWorker (fresh w))"
    by (simp add: g context_at_def aget_def)
qed

lemma getEnteWorker_rejected_keeps_handles:
  assumes "getEnteWorker this i oc w = (Rejected e, this', w')"
  shows "enteWorkers this' = enteWorkers this"
  using assms
  by (cases rule: getEnteWorker_cases[where this=this and i=i and oc=oc and w=w]) auto

section \<open>What dispose terminates\<close>

lemma dispose_all_events:
  "events (foldl terminate w (elements cws)) =
     events w @ map (\<lambda>cw. Terminate (worker cw)) (populated cws)"
  by (simp add: terminate_all_events populated_def)

lemma dispose_all_terminated:
  "terminated (foldl terminate w (elements cws)) = terminated w \<union> worker ` set (populated cws)"
  by (simp add: terminate_all_terminated populated_def)

lemma populated_mem:
  assumes "j < alength arr" "aprops arr (Key (int j)) = Some v"
  shows "v \<in> set (populated arr)"
proof -
  from assms(1) have "aprops arr (Key (int j)) \<in> set (elements arr)"
    by (auto simp: elements_def)
  with assms(2) show ?thesis by (force simp: populated_def)
qed

section \<open>dispose on an idle queue\<close>

lemma dispose_idle_context: "fst (snd (dispose this idle w)) = this\<lparr>localFilesMap := None\<rparr>"
  by (simp add: dispose_def idle_def Let_def split: option.splits)



lemma constructed_queue:
  assumes "new_LocalMLSyncContext tok cfg upd conc CONC w = (Inr this, w')"
  shows "syncQueue this = Some (PQueue (fresh w))"
  using assms by (rule constructed) (simp add: blank_def)

lemma run_queue:
  assumes "run this w cs = (this', w')"
  shows "syncQueue this' = syncQueue this"
proof -
  from run_frame[OF assms] have "syncQueue (without_pool this') = syncQueue (without_pool this)"
    by simp
  then show ?thesis by (simp add: without_pool_def)
qed

lemma frozen_without_pool: "frozen (without_pool this) = frozen this"
  by (simp add: frozen_def without_pool_def)

lemma frozen_localFilesMap: "frozen (this\<lparr>localFilesMap := x\<rparr>) = frozen this"
  by (simp add: frozen_def)

text \<open>
  C9. Neither operation assigns \<open>token\<close>, \<open>config\<close>, \<open>shouldUpdateMLVersion\<close>, one of
  the five services or \<open>concurrency\<close>. A \<open>getEnteWorker\<close> call, whatever its task id and
  however it ends, leaves them as they were. So does \<open>dispose\<close>, however it ends,
  provided the tasks that run while it awaits the idle queue leave them alone.
\<close>

theorem C9_configuration_fields_are_never_assigned:
  "(getEnteWorker this i oc w = (r, this', w') \<longrightarrow> frozen this' = frozen this)
   \<and> ((\<forall>s s'. tasks s = Some s' \<longrightarrow> frozen (fst s') = frozen (fst s))
        \<longrightarrow> frozen (fst (snd (dispose this tasks w))) = frozen this)"
proof (intro conjI impI)
  assume "getEnteWorker this i oc w = (r, this', w')"
  then have "without_pool this' = without_pool this" by (rule getEnteWorker_frame)
  then have "frozen (without_pool this') = frozen (without_pool this)" by simp
  then show "frozen this' = frozen this" by (simp only: frozen_without_pool)
next
  assume quiet: "\<forall>s s'. tasks s = Some s' \<longrightarrow> frozen (fst s') = frozen (fst s)"
  have resumed: "frozen this2 = frozen this"
    if "tasks (this\<lparr>localFilesMap := None\<rparr>, w1) = Some (this2, w2)" for this2 w1 w2
    using quiet that frozen_localFilesMap[where this = this and x = None] by fastforce
  show "frozen (fst (snd (dispose this tasks w))) = frozen this"
  proof (cases rule: dispose_cases[where this=this and tasks=tasks and w=w])
    case no_queue
    then show ?thesis by (simp add: frozen_localFilesMap)
  next
    case (never_idle q)
    then show ?thesis by (simp add: frozen_localFilesMap)
  next
    case (queue_gone q this2 w2)
    with resumed show ?thesis by simp
  next
    case (no_array q this2 w2 q2)
    with resumed show ?thesis by simp
  next
    case (finished q this2 w2 q2 cws)
    with resumed show ?thesis by simp
  qed
qed

theorem C9_configuration_fields_are_never_assigned_witness:
  "getEnteWorker ctx0 0 ok world_built
     = (fst (getEnteWorker ctx0 0 ok world_built), fst (snd (getEnteWorker ctx0 0 ok world_built)),
        snd (snd (getEnteWorker ctx0 0 ok world_built)))
   \<and> frozen ctx0
       = (Some ''t'', Some cfg0, Some True,
          (Some blazeFaceDetectionService, Some arcfaceCropService, Some arcfaceAlignmentService,
           Some mobileFaceNetEmbeddingService, Some dbscanClusteringService),
          Some 2)
   \<and> frozen (fst (snd (getEnteWorker ctx0 0 ok world_built))) = frozen ctx0
   \<and> frozen (fst (snd (dispose ctx0 idle world_built))) = frozen ctx0"
proof -
  have g: "getEnteWorker ctx0 0 ok world_built
     = (fst (getEnteWorker ctx0 0 ok world_built), fst (snd (getEnteWorker ctx0 0 ok world_built)),
        snd (snd (getEnteWorker ctx0 0 ok world_built)))" by simp
  have q: "\<forall>s s'. idle s = Some s' \<longrightarrow> frozen (fst s') = frozen (fst s)"
    by (simp add: idle_def)
  have f: "frozen ctx0
       = (Some ''t'', Some cfg0, Some True,
          (Some blazeFaceDetectionService, Some arcfaceCropService, Some arcfaceAlignmentService,
           Some mobileFaceNetEmbeddingService, Some dbscanClusteringService),
          Some 2)" by (simp add: frozen_def ctx0_def)
  from C9_configuration_fields_are_never_assigned[of ctx0 0 ok world_built
      "fst (getEnteWorker ctx0 0 ok world_built)" "fst (snd (getEnteWorker ctx0 0 ok world_built))"
      "snd (snd (getEnteWorker ctx0 0 ok world_built))" idle] g q f
  show ?thesis by blast
qed

section \<open>Failed creation of the backing context\<close>

lemma getEnteWorker_paired:
  assumes "paired this" "pool n this" "comlink_throws oc = None"
    and "getEnteWorker this i oc w = (r, this', w')"
  shows "paired this'"
  using assms
  by (cases rule: getEnteWorker_cases[where this=this and i=i and oc=oc and w=w])
     (auto simp: paired_def pool_def handle_at_def context_at_def aget_def split: if_splits)

lemma run_paired:
  "paired this \<Longrightarrow> pool n this \<Longrightarrow> list_all (\<lambda>c. comlink_throws (snd c) = None) cs \<Longrightarrow>
   run this w cs = (this', w') \<Longrightarrow> paired this'"
proof (induction cs arbitrary: this w)
  case Nil
  then show ?case by simp
next
  case (Cons c cs)
  obtain i oc where c: "c = (i, oc)" by (cases c)
  obtain r this1 w1 where g: "getEnteWorker this i oc w = (r, this1, w1)"
    by (cases "getEnteWorker this i oc w")
  from Cons.prems(3) c have oc: "comlink_throws oc = None" by simp
  from Cons.prems(1,2) oc g have "paired this1" by (rule getEnteWorker_paired)
  moreover from Cons.prems(2) g have "pool n this1" by (rule getEnteWorker_pool)
  moreover from Cons.prems(3) have "list_all (\<lambda>c. comlink_throws (snd c) = None) cs" by simp
  moreover from Cons.prems(4) c g have "run this1 w1 cs = (this', w')" by simp
  ultimately show ?case by (rule Cons.IH)
qed

lemma constructed_paired:
  assumes "new_LocalMLSyncContext tok cfg upd conc CONC w = (Inr this, w')"
  shows "paired this"
  using constructed_empty[OF assms] by (simp add: paired_def)

lemma getEnteWorker_creates_only_there:
  assumes "pool n this" "wid_of this i = Some k" "handle_at this k = None"
    and "getDedicatedCryptoWorker_throws oc = None" "comlink_throws oc = None" "k' \<noteq> k"
  shows "handle_at (fst (snd (getEnteWorker this i oc w))) k' = handle_at this k'"
    and "context_at (fst (snd (getEnteWorker this i oc w))) k' = context_at this k'"
proof -
  from assms(2,6) have "wid_of this i \<noteq> Some k'" by simp
  from getEnteWorker_other[OF this, of oc w "fst (getEnteWorker this i oc w)"
      "fst (snd (getEnteWorker this i oc w))" "snd (snd (getEnteWorker this i oc w))"]
  show "handle_at (fst (snd (getEnteWorker this i oc w))) k' = handle_at this k'"
    and "context_at (fst (snd (getEnteWorker this i oc w))) k' = context_at this k'"
    by simp_all
qed

text \<open>
  C6. Take a context reached from construction by any sequence of calls, and a call
  that finds its slot without a handle and whose \<open>getDedicatedCryptoWorker\<close> throws:
  creating the backing execution context fails. The call is rejected with the error
  of that failed creation, and neither the context nor the world has changed: the
  slot is as it was, and so is every other slot of both arrays. In particular, when no
  \<open>new cw.comlink()\<close> has thrown before, the slot is empty in both arrays, before and
  after. A later call that maps to the same slot retries: when its creation calls
  return, it creates a new worker, fills the slot in both arrays with it and returns
  its handle, and touches no other slot.
\<close>

theorem C6_failed_creation_leaves_slot_retryable:
  assumes "new_LocalMLSyncContext tok cfg upd conc CONC w0 = (Inr this0, w0')"
    and "run this0 w0' cs = (this, w)"
    and "wid_of this i = Some k" "handle_at this k = None"
    and "getDedicatedCryptoWorker_throws oc = Some e"
  shows "getEnteWorker this i oc w = (Rejected e, this, w)
       \<and> (list_all (\<lambda>c. comlink_throws (snd c) = None) cs \<longrightarrow>
            handle_at this k = None \<and> context_at this k = None)
       \<and> (\<forall>j. wid_of this j = Some k \<longrightarrow>
            (case getEnteWorker this j ok w of
               (r2, this2, w2) \<Rightarrow>
                 r2 = Resolved (EnteWorker (Suc (fresh w)) (fresh w))
               \<and> created (drop (length (events w)) (events w2)) = [fresh w]
               \<and> handle_at this2 k = Some (EnteWorker (Suc (fresh w)) (fresh w))
               \<and> context_at this2 k = Some (ComlinkWorker (fresh w))
               \<and> (\<forall>k'. k' \<noteq> k \<longrightarrow>
                    handle_at this2 k' = handle_at this k'
                  \<and> context_at this2 k' = context_at this k')))"
proof (intro conjI impI allI)
  show "getEnteWorker this i oc w = (Rejected e, this, w)"
    using assms(3,4,5) by (rule getEnteWorker_worker_throws)
next
  show "handle_at this k = None" by (rule assms(4))
next
  assume quiet: "list_all (\<lambda>c. comlink_throws (snd c) = None) cs"
  from constructed_pool[OF assms(1)] obtain c where "pool (nat c) this0" by blast
  with constructed_paired[OF assms(1)] quiet assms(2) have "paired this"
    by (rule_tac run_paired)
  with assms(4) show "context_at this k = None" by (simp add: paired_def)
next
  fix j
  assume j: "wid_of this j = Some k"
  from constructed_pool[OF assms(1)] obtain c where "pool (nat c) this0" by blast
  from this assms(2) have pool: "pool (nat c) this" by (rule run_pool)
  have ok: "getDedicatedCryptoWorker_throws ok = None" "comlink_throws ok = None"
    by (simp_all add: ok_def)
  from getEnteWorker_creates[OF pool j assms(4) ok, where w = w]
    getEnteWorker_creates_only_there[OF pool j assms(4) ok, where w = w]
  show "case getEnteWorker this j ok w of
               (r2, this2, w2) \<Rightarrow>
                 r2 = Resolved (EnteWorker (Suc (fresh w)) (fresh w))
               \<and> created (drop (length (events w)) (events w2)) = [fresh w]
               \<and> handle_at this2 k = Some (EnteWorker (Suc (fresh w)) (fresh w))
               \<and> context_at this2 k = Some (ComlinkWorker (fresh w))
               \<and> (\<forall>k'. k' \<noteq> k \<longrightarrow>
                    handle_at this2 k' = handle_at this k'
                  \<and> context_at this2 k' = context_at this k')"
    by (simp add: case_prod_beta)
qed

theorem C6_failed_creation_leaves_slot_retryable_witness:
  "new_LocalMLSyncContext ''t'' cfg0 None (Some 2) 4 world_empty = (Inr ctx0, world_built)
   \<and> run ctx0 world_built [(1, ok)] = (fst (run ctx0 world_built [(1, ok)]), snd (run ctx0 world_built [(1, ok)]))
   \<and> list_all (\<lambda>c. comlink_throws (snd c) = None) [(1, ok)]
   \<and> wid_of (fst (run ctx0 world_built [(1, ok)])) 0 = Some (Key 0)
   \<and> handle_at (fst (run ctx0 world_built [(1, ok)])) (Key 0) = None
   \<and> context_at (fst (run ctx0 world_built [(1, ok)])) (Key 0) = None
   \<and> getDedicatedCryptoWorker_throws worker_fails = Some (Error ''worker'')
   \<and> getEnteWorker (fst (run ctx0 world_built [(1, ok)])) 0 worker_fails (snd (run ctx0 world_built [(1, ok)]))
        = (Rejected (Error ''worker''), fst (run ctx0 world_built [(1, ok)]), snd (run ctx0 world_built [(1, ok)]))
   \<and> map (\<lambda>x. fst (snd x)) (history ctx0 world_built [(1, ok), (0, worker_fails), (2, ok)])
        = [Resolved (EnteWorker 2 1), Rejected (Error ''worker''), Resolved (EnteWorker 4 3)]
   \<and> context_at (fst (run ctx0 world_built [(1, ok), (0, worker_fails), (2, ok)])) (Key 1)
        = Some (ComlinkWorker 1)"
proof -
  let ?ctx = "fst (run ctx0 world_built [(1, ok)])"
  let ?w = "snd (run ctx0 world_built [(1, ok)])"
  have r: "run ctx0 world_built [(1, ok)] = (?ctx, ?w)" by simp
  have q: "list_all (\<lambda>c. comlink_throws (snd c) = None) [(1, ok)]" by (simp add: ok_def)
  have k: "wid_of ?ctx 0 = Some (Key 0)" by code_simp
  have h: "handle_at ?ctx (Key 0) = None" by code_simp
  have t: "getDedicatedCryptoWorker_throws worker_fails = Some (Error ''worker'')"
    by (simp add: worker_fails_def)
  have a: "map (\<lambda>x. fst (snd x)) (history ctx0 world_built [(1, ok), (0, worker_fails), (2, ok)])
        = [Resolved (EnteWorker 2 1), Rejected (Error ''worker''), Resolved (EnteWorker 4 3)]"
    by code_simp
  have b: "context_at (fst (run ctx0 world_built [(1, ok), (0, worker_fails), (2, ok)])) (Key 1)
        = Some (ComlinkWorker 1)" by code_simp
  from C6_failed_creation_leaves_slot_retryable[OF built0 r k h t] built0 r q k h t a b
  show ?thesis by simp
qed

section \<open>The steps of dispose\<close>

lemma terminations_by_slot:
  "map (\<lambda>cw. Terminate (worker cw)) (populated cws) =
     concat (map (\<lambda>j. case aprops cws (Key (int j)) of None \<Rightarrow> [] | Some cw \<Rightarrow> [Terminate (worker cw)])
               [0 ..< alength cws])"
proof -
  have "map f (concat (map (\<lambda>x. case x of None \<Rightarrow> [] | Some v \<Rightarrow> [v]) (map g js)))
          = concat (map (\<lambda>j. case g j of None \<Rightarrow> [] | Some v \<Rightarrow> [f v]) js)"
    for f :: "ComlinkWorker \<Rightarrow> event" and g :: "nat \<Rightarrow> ComlinkWorker option" and js
    by (induction js) (auto split: option.splits)
  then show ?thesis by (simp add: populated_def elements_def)
qed

lemma populated_set:
  "set (populated cws) = {cw. \<exists>j < alength cws. aprops cws (Key (int j)) = Some cw}"
proof -
  have "set (concat (map (\<lambda>x. case x of None \<Rightarrow> [] | Some v \<Rightarrow> [v]) xs)) = {v. Some v \<in> set xs}"
    for xs :: "'a option list"
    by (induction xs) (auto split: option.splits)
  then have "set (populated cws) = {v. Some v \<in> set (elements cws)}"
    by (simp add: populated_def)
  also have "\<dots> = {cw. \<exists>j < alength cws. aprops cws (Key (int j)) = Some cw}"
    by (auto simp: elements_def image_iff) (metis atLeastLessThan_iff le0)
  finally show ?thesis .
qed

lemma terminated_by_slot:
  "worker ` set (populated cws) =
     {n. \<exists>j < alength cws. aprops cws (Key (int j)) = Some (ComlinkWorker n)}"
proof (intro set_eqI iffI)
  fix n
  assume "n \<in> worker ` set (populated cws)"
  then obtain cw where "cw \<in> set (populated cws)" "n = worker cw" by blast
  then obtain j where "j < alength cws" "aprops cws (Key (int j)) = Some cw"
    by (auto simp: populated_set)
  with \<open>n = worker cw\<close> show "n \<in> {n. \<exists>j < alength cws. aprops cws (Key (int j)) = Some (ComlinkWorker n)}"
    by (cases cw) auto
next
  fix n
  assume "n \<in> {n. \<exists>j < alength cws. aprops cws (Key (int j)) = Some (ComlinkWorker n)}"
  then have "ComlinkWorker n \<in> set (populated cws)" by (simp add: populated_set)
  then show "n \<in> worker ` set (populated cws)" by (rule image_eqI[rotated]) simp
qed

text \<open>
  C3. \<open>dispose\<close> performs its steps in this order. It clears \<open>localFilesMap\<close> and
  calls \<open>onIdle\<close> of the queue, then it is suspended: the tasks that run while it
  waits start from the context with \<open>localFilesMap\<close> cleared and from the world with
  that call recorded. While the queue does not become idle it stays pending and has
  terminated no worker. As soon as the queue is idle it resumes and resolves: it
  removes the queue's listeners and then terminates the workers of the populated
  slots, in slot order, and these calls are the last it makes; the terminated workers
  are those terminated before plus exactly the ones in the slots. Conversely, whenever
  it has resolved, the queue had become idle and these steps were taken in this order.
\<close>

theorem C3_dispose_terminates_after_idle:
  assumes "dispose this tasks w = (r, this', w')"
  shows "(\<forall>q. syncQueue this = Some q
              \<and> tasks (this\<lparr>localFilesMap := None\<rparr>, emit (OnIdle (qid q)) w) = None
            \<longrightarrow> r = Pending \<and> this' = this\<lparr>localFilesMap := None\<rparr>
              \<and> events w' = events w @ [OnIdle (qid q)] \<and> terminated w' = terminated w)
       \<and> (\<forall>q this2 w2 q2 cws.
              syncQueue this = Some q
              \<and> tasks (this\<lparr>localFilesMap := None\<rparr>, emit (OnIdle (qid q)) w) = Some (this2, w2)
              \<and> syncQueue this2 = Some q2 \<and> enteComlinkWorkers this2 = Some cws
            \<longrightarrow> r = Resolved () \<and> this' = this2
              \<and> events w' = events w2 @ RemoveAllListeners (qid q2)
                   # concat (map (\<lambda>j. case aprops cws (Key (int j)) of
                                         None \<Rightarrow> [] | Some cw \<Rightarrow> [Terminate (worker cw)])
                               [0 ..< alength cws])
              \<and> listening w' = listening w2 - {qid q2}
              \<and> terminated w' = terminated w2
                   \<union> {n. \<exists>j < alength cws. aprops cws (Key (int j)) = Some (ComlinkWorker n)}
              \<and> fresh w' = fresh w2)
       \<and> (r = Resolved () \<longrightarrow>
            (\<exists>q this2 w2 q2 cws.
                syncQueue this = Some q
              \<and> tasks (this\<lparr>localFilesMap := None\<rparr>, emit (OnIdle (qid q)) w) = Some (this2, w2)
              \<and> syncQueue this2 = Some q2 \<and> enteComlinkWorkers this2 = Some cws))"
proof (cases rule: dispose_cases[where this=this and tasks=tasks and w=w])
  case no_queue
  with assms have "r = Rejected (TypeError ''Cannot read properties of undefined'')" by simp
  with no_queue(1) show ?thesis by simp
next
  case (never_idle q)
  with assms have "r = Pending" "this' = this\<lparr>localFilesMap := None\<rparr>"
    "w' = emit (OnIdle (qid q)) w" by simp_all
  with never_idle(1,2) show ?thesis by (simp add: emit_def)
next
  case (queue_gone q this2 w2)
  with assms have "r = Rejected (TypeError ''Cannot read properties of undefined'')" by simp
  with queue_gone(1,2,3) show ?thesis by simp
next
  case (no_array q this2 w2 q2)
  with assms have "r = Rejected (TypeError ''undefined is not iterable'')" by simp
  with no_array(1,2,3,4) show ?thesis by simp
next
  case (finished q this2 w2 q2 cws)
  with assms have "r = Resolved ()" "this' = this2"
    "w' = foldl terminate (removeAllListeners q2 w2) (elements cws)" by simp_all
  with finished(1-4) show ?thesis
    by (simp add: dispose_all_events dispose_all_terminated terminate_all_rest
          removeAllListeners_def emit_def terminations_by_slot terminated_by_slot)
qed

theorem C3_dispose_terminates_after_idle_witness:
  "dispose ctx_a (acquiring [(1, ok)]) world_a
     = (fst (dispose ctx_a (acquiring [(1, ok)]) world_a),
        fst (snd (dispose ctx_a (acquiring [(1, ok)]) world_a)),
        snd (snd (dispose ctx_a (acquiring [(1, ok)]) world_a)))
   \<and> syncQueue ctx_a = Some (PQueue 0)
   \<and> map_option (\<lambda>s. (syncQueue (fst s), map_option alength (enteComlinkWorkers (fst s))))
        (acquiring [(1, ok)] (ctx_a\<lparr>localFilesMap := None\<rparr>, emit (OnIdle (qid (PQueue 0))) world_a))
       = Some (Some (PQueue 0), Some 2)
   \<and> fst (dispose ctx_a (acquiring [(1, ok)]) world_a) = Resolved ()
   \<and> events (snd (snd (dispose ctx_a (acquiring [(1, ok)]) world_a)))
       = [ConsoleLog 2, NewPQueue 0 2, LogQueueStats 0 ''sync'',
          GetDedicatedCryptoWorker 1, NewComlink 2 1,
          OnIdle 0, GetDedicatedCryptoWorker 3, NewComlink 4 3,
          RemoveAllListeners 0, Terminate 1, Terminate 3]
   \<and> terminated (snd (snd (dispose ctx_a (acquiring [(1, ok)]) world_a))) = {1, 3}
   \<and> listening (snd (snd (dispose ctx_a (acquiring [(1, ok)]) world_a))) = {}
   \<and> busy (ctx_a\<lparr>localFilesMap := None\<rparr>, emit (OnIdle (qid (PQueue 0))) world_a) = None
   \<and> fst (dispose ctx_a busy world_a) = Pending
   \<and> events (snd (snd (dispose ctx_a busy world_a))) = events world_a @ [OnIdle 0]
   \<and> terminated (snd (snd (dispose ctx_a busy world_a))) = terminated world_a"
proof -
  let ?d = "dispose ctx_a (acquiring [(1, ok)]) world_a"
  have d: "?d = (fst ?d, fst (snd ?d), snd (snd ?d))" by simp
  have b: "dispose ctx_a busy world_a
     = (fst (dispose ctx_a busy world_a), fst (snd (dispose ctx_a busy world_a)),
        snd (snd (dispose ctx_a busy world_a)))" by simp
  have q: "syncQueue ctx_a = Some (PQueue 0)" by code_simp
  have a: "map_option (\<lambda>s. (syncQueue (fst s), map_option alength (enteComlinkWorkers (fst s))))
        (acquiring [(1, ok)] (ctx_a\<lparr>localFilesMap := None\<rparr>, emit (OnIdle (qid (PQueue 0))) world_a))
       = Some (Some (PQueue 0), Some 2)" by code_simp
  have r: "fst ?d = Resolved ()" by code_simp
  have e: "events (snd (snd ?d))
       = [ConsoleLog 2, NewPQueue 0 2, LogQueueStats 0 ''sync'',
          GetDedicatedCryptoWorker 1, NewComlink 2 1,
          OnIdle 0, GetDedicatedCryptoWorker 3, NewComlink 4 3,
          RemoveAllListeners 0, Terminate 1, Terminate 3]" by code_simp
  have t: "terminated (snd (snd ?d)) = {1, 3}" by code_simp
  have l: "listening (snd (snd ?d)) = {}" by code_simp
  have n: "busy (ctx_a\<lparr>localFilesMap := None\<rparr>, emit (OnIdle (qid (PQueue 0))) world_a) = None"
    by (simp add: busy_def)
  from C3_dispose_terminates_after_idle[OF d] C3_dispose_terminates_after_idle[OF b] d q a r e t l n
  show ?thesis by simp
qed

section \<open>dispose while tasks acquire workers\<close>

lemma dispose_context:
  "(case syncQueue this of
      None \<Rightarrow> fst (snd (dispose this tasks w)) = this\<lparr>localFilesMap := None\<rparr>
    | Some q \<Rightarrow>
        (case tasks (this\<lparr>localFilesMap := None\<rparr>, emit (OnIdle (qid q)) w) of
           None \<Rightarrow> fst (snd (dispose this tasks w)) = this\<lparr>localFilesMap := None\<rparr>
         | Some s \<Rightarrow> fst (snd (dispose this tasks w)) = fst s))"
proof (cases rule: dispose_cases[where this=this and tasks=tasks and w=w])
  case no_queue
  then show ?thesis by simp
next
  case (never_idle q)
  then show ?thesis by simp
next
  case (queue_gone q this2 w2)
  then show ?thesis by simp
next
  case (no_array q this2 w2 q2)
  then show ?thesis by simp
next
  case (finished q this2 w2 q2 cws)
  then show ?thesis by simp
qed

lemma dispose_acquiring:
  assumes "syncQueue this = Some q"
    and "run (this\<lparr>localFilesMap := None\<rparr>) (emit (OnIdle (qid q)) w) cs = (this2, w2)"
    and "syncQueue this2 = Some q2" "enteComlinkWorkers this2 = Some cws"
  shows "dispose this (acquiring cs) w =
     (Resolved (), this2, foldl terminate (removeAllListeners q2 w2) (elements cws))"
  using assms by (simp add: dispose_def acquiring_def Let_def)

lemma resumed_world:
  "fresh (foldl terminate (removeAllListeners q w) (elements cws)) = fresh w"
  "listening (foldl terminate (removeAllListeners q w) (elements cws)) = listening w - {qid q}"
  "terminated (foldl terminate (removeAllListeners q w) (elements cws))
     = terminated w \<union> {n. \<exists>j < alength cws. aprops cws (Key (int j)) = Some (ComlinkWorker n)}"
  by (simp_all add: terminate_all_rest dispose_all_terminated removeAllListeners_def emit_def
        terminated_by_slot)

lemma pool_localFilesMap [simp]: "pool n (this\<lparr>localFilesMap := x\<rparr>) = pool n this"
  by (simp add: pool_def)

lemma linked_localFilesMap [simp]: "linked (this\<lparr>localFilesMap := x\<rparr>) = linked this"
  by (simp add: linked_def handle_at_def context_at_def)

lemma handle_at_localFilesMap [simp]: "handle_at (this\<lparr>localFilesMap := x\<rparr>) k = handle_at this k"
  by (simp add: handle_at_def)

text \<open>
  C10, as amended. \<open>dispose\<close> itself assigns only \<open>localFilesMap\<close>: the context it
  leaves is the one it was given with \<open>localFilesMap\<close> set to \<open>undefined\<close>, or what the
  tasks that ran during its \<open>await\<close> made of that one; on an idle queue every other
  field, both pool arrays included, is as it was. Take a context reached from
  construction by any sequence of \<open>getEnteWorker\<close> calls, and let the tasks that run
  during the \<open>await\<close> make any further \<open>getEnteWorker\<close> calls: \<open>dispose\<close> resolves, the
  fields outside the pool are unchanged but for \<open>localFilesMap\<close>, and in the world it
  creates nothing, detaches the listeners of the context's queue and adds to the
  terminated workers exactly those of the populated slots. Every handle stored before
  is still stored, and afterwards a \<open>getEnteWorker\<close> call whose key holds a handle
  resolves with that stored handle, changing neither context nor world; for a
  non-negative task id the worker that handle runs on has been terminated.
\<close>

theorem C10_dispose_changes_only_localFilesMap:
  "fst (snd (dispose this idle w)) = this\<lparr>localFilesMap := None\<rparr>
   \<and> (case syncQueue this of
        None \<Rightarrow> fst (snd (dispose this tasks w)) = this\<lparr>localFilesMap := None\<rparr>
      | Some q \<Rightarrow>
          (case tasks (this\<lparr>localFilesMap := None\<rparr>, emit (OnIdle (qid q)) w) of
             None \<Rightarrow> fst (snd (dispose this tasks w)) = this\<lparr>localFilesMap := None\<rparr>
           | Some s \<Rightarrow> fst (snd (dispose this tasks w)) = fst s))
   \<and> (new_LocalMLSyncContext tok cfg upd conc CONC w0 = (Inr this0, w0')
        \<and> run this0 w0' cs = (this, w) \<longrightarrow>
       (case dispose this (acquiring cs2) w of
          (r, this', w') \<Rightarrow>
            r = Resolved ()
          \<and> without_pool this' = without_pool (this\<lparr>localFilesMap := None\<rparr>)
          \<and> (cs2 = [] \<longrightarrow> this' = this\<lparr>localFilesMap := None\<rparr>)
          \<and> (\<exists>q cws w2. syncQueue this = Some q \<and> enteComlinkWorkers this' = Some cws
                \<and> run (this\<lparr>localFilesMap := None\<rparr>) (emit (OnIdle (qid q)) w) cs2 = (this', w2)
                \<and> fresh w' = fresh w2
                \<and> listening w' = listening w2 - {qid q}
                \<and> terminated w' = terminated w2
                     \<union> {n. \<exists>j < alength cws. aprops cws (Key (int j)) = Some (ComlinkWorker n)})
          \<and> (\<forall>k h. handle_at this k = Some h \<longrightarrow> handle_at this' k = Some h)
          \<and> (\<forall>i oc k h. wid_of this' i = Some k \<and> handle_at this' k = Some h \<longrightarrow>
                getEnteWorker this' i oc w' = (Resolved h, this', w')
              \<and> (0 \<le> i \<longrightarrow> backing h \<in> terminated w'))))"
proof (intro conjI impI)
  show "fst (snd (dispose this idle w)) = this\<lparr>localFilesMap := None\<rparr>"
    by (rule dispose_idle_context)
next
  show "case syncQueue this of
        None \<Rightarrow> fst (snd (dispose this tasks w)) = this\<lparr>localFilesMap := None\<rparr>
      | Some q \<Rightarrow>
          (case tasks (this\<lparr>localFilesMap := None\<rparr>, emit (OnIdle (qid q)) w) of
             None \<Rightarrow> fst (snd (dispose this tasks w)) = this\<lparr>localFilesMap := None\<rparr>
           | Some s \<Rightarrow> fst (snd (dispose this tasks w)) = fst s)"
    by (rule dispose_context)
next
  assume "new_LocalMLSyncContext tok cfg upd conc CONC w0 = (Inr this0, w0')
        \<and> run this0 w0' cs = (this, w)"
  then have built: "new_LocalMLSyncContext tok cfg upd conc CONC w0 = (Inr this0, w0')"
    and run: "run this0 w0' cs = (this, w)" by simp_all
  from constructed_pool[OF built] obtain c where c: "1 \<le> c" "pool (nat c) this0" by blast
  from c(2) run have pool: "pool (nat c) this" by (rule run_pool)
  from constructed_linked[OF built] run have linked: "linked this" by (rule run_linked)
  from constructed_queue[OF built] run_queue[OF run]
  obtain q where q: "syncQueue this = Some q" by simp
  let ?this1 = "this\<lparr>localFilesMap := None\<rparr>"
  let ?w1 = "emit (OnIdle (qid q)) w"
  obtain this2 w2 where r2: "run ?this1 ?w1 cs2 = (this2, w2)" by (cases "run ?this1 ?w1 cs2")
  from pool have "pool (nat c) ?this1" by simp
  from this r2 have pool2: "pool (nat c) this2" by (rule run_pool)
  from linked have "linked ?this1" by simp
  from this r2 have linked2: "linked this2" by (rule run_linked)
  from run_queue[OF r2] q have q2: "syncQueue this2 = Some q" by simp
  from pool2 obtain cws where cws: "enteComlinkWorkers this2 = Some cws" "alength cws = nat c"
    by (auto simp: pool_def split: option.splits)
  let ?w' = "foldl terminate (removeAllListeners q w2) (elements cws)"
  have d: "dispose this (acquiring cs2) w = (Resolved (), this2, ?w')"
    using q r2 q2 cws(1) by (rule dispose_acquiring)
  have frame: "without_pool this2 = without_pool ?this1" using r2 by (rule run_frame)
  have idle: "cs2 = [] \<longrightarrow> this2 = ?this1" using r2 by auto
  have world: "fresh ?w' = fresh w2" "listening ?w' = listening w2 - {qid q}"
    "terminated ?w' = terminated w2
       \<union> {n. \<exists>j < alength cws. aprops cws (Key (int j)) = Some (ComlinkWorker n)}"
    by (simp_all add: resumed_world)
  have kept: "\<forall>k h. handle_at this k = Some h \<longrightarrow> handle_at this2 k = Some h"
  proof (intro allI impI)
    fix k h
    assume "handle_at this k = Some h"
    then have "handle_at ?this1 k = Some h" by simp
    from run_stay[OF this r2] show "handle_at this2 k = Some h" by simp
  qed
  have after: "getEnteWorker this2 i oc ?w' = (Resolved h, this2, ?w')
              \<and> (0 \<le> i \<longrightarrow> backing h \<in> terminated ?w')"
    if k: "wid_of this2 i = Some k" and h: "handle_at this2 k = Some h" for i oc k h
  proof
    from k h show "getEnteWorker this2 i oc ?w' = (Resolved h, this2, ?w')"
      by (rule getEnteWorker_hit)
  next
    show "0 \<le> i \<longrightarrow> backing h \<in> terminated ?w'"
    proof
      assume i: "0 \<le> i"
      from pool_wid_of[OF pool2 _ i] c(1) k have key: "k = Key (i mod c)" by simp
      from linked2 h have "context_at this2 k = Some (ComlinkWorker (backing h))"
        by (simp add: linked_def)
      with cws(1) key have "aprops cws (Key (i mod c)) = Some (ComlinkWorker (backing h))"
        by (simp add: context_at_def aget_def)
      moreover from c(1) i have "int (nat (i mod c)) = i mod c" "nat (i mod c) < nat c"
        by simp_all
      ultimately have "\<exists>j < alength cws. aprops cws (Key (int j)) = Some (ComlinkWorker (backing h))"
        using cws(2) by (intro exI[of _ "nat (i mod c)"]) simp
      then show "backing h \<in> terminated ?w'" by (simp add: world(3))
    qed
  qed
  from after have calls: "\<forall>i oc k h. wid_of this2 i = Some k \<and> handle_at this2 k = Some h \<longrightarrow>
                getEnteWorker this2 i oc ?w' = (Resolved h, this2, ?w')
              \<and> (0 \<le> i \<longrightarrow> backing h \<in> terminated ?w')" by blast
  have ex: "\<exists>q cws w2'. syncQueue this = Some q \<and> enteComlinkWorkers this2 = Some cws
                \<and> run (this\<lparr>localFilesMap := None\<rparr>) (emit (OnIdle (qid q)) w) cs2 = (this2, w2')
                \<and> fresh ?w' = fresh w2'
                \<and> listening ?w' = listening w2' - {qid q}
                \<and> terminated ?w' = terminated w2'
                     \<union> {n. \<exists>j < alength cws. aprops cws (Key (int j)) = Some (ComlinkWorker n)}"
    using q cws(1) r2 world by blast
  show "case dispose this (acquiring cs2) w of
          (r, this', w') \<Rightarrow>
            r = Resolved ()
          \<and> without_pool this' = without_pool (this\<lparr>localFilesMap := None\<rparr>)
          \<and> (cs2 = [] \<longrightarrow> this' = this\<lparr>localFilesMap := None\<rparr>)
          \<and> (\<exists>q cws w2. syncQueue this = Some q \<and> enteComlinkWorkers this' = Some cws
                \<and> run (this\<lparr>localFilesMap := None\<rparr>) (emit (OnIdle (qid q)) w) cs2 = (this', w2)
                \<and> fresh w' = fresh w2
                \<and> listening w' = listening w2 - {qid q}
                \<and> terminated w' = terminated w2
                     \<union> {n. \<exists>j < alength cws. aprops cws (Key (int j)) = Some (ComlinkWorker n)})
          \<and> (\<forall>k h. handle_at this k = Some h \<longrightarrow> handle_at this' k = Some h)
          \<and> (\<forall>i oc k h. wid_of this' i = Some k \<and> handle_at this' k = Some h \<longrightarrow>
                getEnteWorker this' i oc w' = (Resolved h, this', w')
              \<and> (0 \<le> i \<longrightarrow> backing h \<in> terminated w'))"
    unfolding d prod.case
    by (insert frame idle ex kept calls) (intro conjI; (rule refl | assumption))
qed


theorem C10_dispose_changes_only_localFilesMap_witness:
  "new_LocalMLSyncContext ''t'' cfg0 None (Some 2) 4 world_empty = (Inr ctx0, world_built)
   \<and> run ctx0 world_built [(0, ok)] = (ctx_a, world_a)
   \<and> handle_at ctx_a (Key 0) = Some (EnteWorker 2 1)
   \<and> fst (dispose ctx_a (acquiring [(1, ok)]) world_a) = Resolved ()
   \<and> localFilesMap (fst (snd (dispose ctx_a (acquiring [(1, ok)]) world_a))) = None
   \<and> nSyncedFiles (fst (snd (dispose ctx_a (acquiring [(1, ok)]) world_a))) = Some 0
   \<and> wid_of (fst (snd (dispose ctx_a (acquiring [(1, ok)]) world_a))) 2 = Some (Key 0)
   \<and> handle_at (fst (snd (dispose ctx_a (acquiring [(1, ok)]) world_a))) (Key 0)
       = Some (EnteWorker 2 1)
   \<and> fst (getEnteWorker (fst (snd (dispose ctx_a (acquiring [(1, ok)]) world_a))) 2 ok
            (snd (snd (dispose ctx_a (acquiring [(1, ok)]) world_a))))
       = Resolved (EnteWorker 2 1)
   \<and> backing (EnteWorker 2 1) \<in> terminated (snd (snd (dispose ctx_a (acquiring [(1, ok)]) world_a)))
   \<and> listening world_a = {0}
   \<and> listening (snd (snd (dispose ctx_a (acquiring [(1, ok)]) world_a))) = {}
   \<and> terminated world_a = {}
   \<and> terminated (snd (snd (dispose ctx_a (acquiring [(1, ok)]) world_a))) = {1, 3}
   \<and> fst (snd (dispose ctx_a idle world_a)) = ctx_a\<lparr>localFilesMap := None\<rparr>"
proof -
  let ?d = "dispose ctx_a (acquiring [(1, ok)]) world_a"
  have r: "run ctx0 world_built [(0, ok)] = (ctx_a, world_a)" by (simp add: ctx_a_def world_a_def)
  have h0: "handle_at ctx_a (Key 0) = Some (EnteWorker 2 1)" by code_simp
  have d: "fst ?d = Resolved ()" by code_simp
  have f: "localFilesMap (fst (snd ?d)) = None" "nSyncedFiles (fst (snd ?d)) = Some 0"
    by code_simp+
  have k: "wid_of (fst (snd ?d)) 2 = Some (Key 0)" by code_simp
  have h: "handle_at (fst (snd ?d)) (Key 0) = Some (EnteWorker 2 1)" by code_simp
  have g: "fst (getEnteWorker (fst (snd ?d)) 2 ok (snd (snd ?d))) = Resolved (EnteWorker 2 1)"
    by code_simp
  have l: "listening world_a = {0}" "listening (snd (snd ?d)) = {}" by code_simp+
  have t: "terminated world_a = {}" "terminated (snd (snd ?d)) = {1, 3}" by code_simp+
  from C10_dispose_changes_only_localFilesMap[where this = ctx_a and w = world_a
      and tok = "''t''" and cfg = cfg0 and upd = None and conc = "Some 2" and CONC = 4
      and ?w0.0 = world_empty and ?this0.0 = ctx0 and w0' = world_built and cs = "[(0, ok)]"
      and ?cs2.0 = "[(1, ok)]" and tasks = idle]
    built0 r h0 d f k h g l t
  show ?thesis by simp
qed

text \<open>
  The claim as written fails for a negative task id. \<open>getEnteWorker(-1)\<close> stores its
  handle under the key \<open>-1\<close>, which is not a slot; \<open>dispose\<close> terminates the workers of
  the slots only, so the call after \<open>dispose\<close> returns a stored handle whose worker has
  not been terminated.
\<close>

theorem C10_negative_id_worker_not_terminated_counterexample:
  "wid_of ctx_n (- 1) = Some (Key (- 1))
   \<and> handle_at ctx_n (Key (- 1)) = Some (EnteWorker 6 5)
   \<and> fst (dispose ctx_n idle world_n) = Resolved ()
   \<and> fst (getEnteWorker (fst (snd (dispose ctx_n idle world_n))) (- 1) ok
            (snd (snd (dispose ctx_n idle world_n))))
       = Resolved (EnteWorker 6 5)
   \<and> terminated (snd (snd (dispose ctx_n idle world_n))) = {1, 3}
   \<and> backing (EnteWorker 6 5) \<notin> terminated (snd (snd (dispose ctx_n idle world_n)))"
  by code_simp




end
